theory Spec2Isabelle
  imports Complex_Main "HOL-Library.AList" "HOL-Library.Multiset" "HOL-Library.Char_ord"
    "HOL-Library.List_Lexorder" "HOL-Library.Product_Lexorder"
begin

section \<open>Python values the model needs\<close>

text \<open>
  Exceptions of the source are values. A Python \<open>dict\<close> is an association list with
  distinct keys in insertion order: \<open>d[k] = v\<close> is \<open>AList.update k v d\<close> (the value is
  replaced in place, a new key goes to the end), \<open>d[k]\<close> is \<open>map_of d k\<close> with
  \<open>None\<close> standing for KeyError, \<open>k in d\<close> is \<open>haskey d k\<close>.
  Times and time spans are seconds as real numbers.
\<close>

datatype pyerror = KeyError | IndexError | NameError | TypeError | AttributeError | RuntimeError

definition haskey :: "('k \<times> 'v) list \<Rightarrow> 'k \<Rightarrow> bool" where
  "haskey d k = (map_of d k \<noteq> None)"

text \<open>
  A \<open>for\<close> loop whose body may raise: the body maps the loop state to the new state and
  to the exception it raised, if any; the state reached so far is kept in both cases, as
  the objects mutated in place are. \<open>continue\<close> is a body that returns the state with no
  exception.
\<close>

fun for_each :: "('x \<Rightarrow> 's \<Rightarrow> 's \<times> pyerror option) \<Rightarrow> 'x list \<Rightarrow> 's \<Rightarrow> 's \<times> pyerror option" where
  "for_each body [] s = (s, None)"
| "for_each body (x # xs) s =
     (case body x s of
        (s', None) \<Rightarrow> for_each body xs s'
      | (s', Some e) \<Rightarrow> (s', Some e))"

section \<open>Data model\<close>

type_synonym nslc = "string \<times> string \<times> string \<times> string"

text \<open>
  A pick, with the accessors the source reads: \<open>publicID()\<close>, \<open>waveformID()\<close> (network,
  station, location and channel code), \<open>time().value()\<close>, \<open>creationInfo().author()\<close>
  (\<open>None\<close> when the creation info is not set and the accessor raises ValueError),
  \<open>creationInfo().creationTime()\<close>, \<open>methodID()\<close> and the evaluation mode.
\<close>

record pick =
  publicID :: string
  waveformID :: nslc
  pickTime :: real
  author :: "string option"
  creationTime :: real
  methodID :: string
  manual :: bool

text \<open>
  An arrival: \<open>distance()\<close> raises ValueError when unset (\<open>None\<close>), \<open>timeUsed\<close> is
  optional as well.
\<close>

record arrival =
  pickID :: string
  phase :: string
  timeUsed :: "bool option"
  weight :: real
  distance :: "real option"

record origin =
  originID :: string
  otime :: real
  latitude :: real
  longitude :: real
  depth :: real
  agencyID :: string
  arrivals :: "arrival list"

text \<open>A station of the inventory: latitude and longitude.\<close>

type_synonym station = "real \<times> real"

section \<open>External collaborators\<close>

text \<open>
  The SeisComP library is not part of the repository; what the source calls is taken as
  parameters: \<open>seiscomp.math.delazi_wgs84\<close> and \<open>seiscomp.math.delazi\<close> (of which only
  the distance is used), and \<open>TravelTimeTable.compute\<close>, which maps source depth and
  distance to the list of predicted arrivals (phase, travel time).
\<close>

record seismology =
  delazi_wgs84 :: "real \<Rightarrow> real \<Rightarrow> real \<Rightarrow> real \<Rightarrow> real"
  delazi :: "real \<Rightarrow> real \<Rightarrow> real \<Rightarrow> real \<Rightarrow> real"
  compute :: "real \<Rightarrow> real \<Rightarrow> (string \<times> real) list"

text \<open>
  The database query object: \<open>getPicks(startTime, endTime)\<close>, \<open>getPicks(originID)\<close>
  (an object that \<open>Pick.Cast\<close> rejects is \<open>None\<close>) and \<open>loadArrivals(origin)\<close>, which
  adds the stored arrivals of the origin to the origin object.
\<close>

record query =
  getPicksInTimespan :: "real \<Rightarrow> real \<Rightarrow> pick option list"
  getPicksOfOrigin :: "string \<Rightarrow> pick option list"
  storedArrivals :: "string \<Rightarrow> arrival list"

definition loadArrivals :: "query \<Rightarrow> origin \<Rightarrow> origin" where
  "loadArrivals q org = org\<lparr>arrivals := arrivals org @ storedArrivals q (originID org)\<rparr>"

section \<open>Helpers of scdlpicker.util and scdlpicker.inventory\<close>

text \<open>
  Modelled from the spec: \<open>scdlpicker.inventory.getStations\<close> is not among the sources. The
  Station Index "flattens a station inventory (valid over a time epoch) into a lookup
  from (network, station) to geographic coordinates"; an inventory is represented by
  that lookup for every instant.
\<close>

type_synonym inventory = "real \<Rightarrow> (string \<times> string) \<rightharpoonup> station"

definition getStations :: "inventory \<Rightarrow> real \<Rightarrow> (string \<times> string) \<rightharpoonup> station" where
  "getStations inventory t = inventory t"

text \<open>
  Modelled from the spec: \<open>scdlpicker.util.nslc\<close> is not among the sources. It gives the
  "network/station/location/channel identity tuple for a waveform stream" of a pick.
\<close>

definition nslc :: "pick \<Rightarrow> nslc" where
  "nslc p = waveformID p"

text \<open>
  Modelled from the spec: \<open>scdlpicker.util.authorOf\<close> is not among the sources; it reads the
  authorship of a pick, absent when the pick has no creation info.
\<close>

definition authorOf :: "pick \<Rightarrow> string option" where
  "authorOf p = author p"

text \<open>
  Modelled from the spec: \<open>scdlpicker.util.clearAllArrivals\<close> and
  \<open>scdlpicker.util.clearAutomaticArrivals\<close> are not among the sources. The first empties the
  arrival list; of the second the spec says "automatic arrivals are stripped but manual
  ones retained". Which arrivals count as manual is a parameter.
\<close>

definition clearAllArrivals :: "origin \<Rightarrow> origin" where
  "clearAllArrivals org = org\<lparr>arrivals := []\<rparr>"

definition clearAutomaticArrivals :: "(arrival \<Rightarrow> bool) \<Rightarrow> origin \<Rightarrow> origin" where
  "clearAutomaticArrivals isManual org = org\<lparr>arrivals := filter isManual (arrivals org)\<rparr>"

section \<open>dbutil.py\<close>

subsection \<open>loadPicksForTimespan\<close>

text \<open>The call of \<open>loadPicksForOrigin\<close> leaves \<open>withAmplitudes\<close> at False.\<close>

definition loadPicksForTimespan :: "query \<Rightarrow> real \<Rightarrow> real \<Rightarrow> string list \<Rightarrow> (string \<times> pick) list" where
  "loadPicksForTimespan q startTime endTime allowedAuthorIDs =
     fold (\<lambda>obj objects.
             case obj of
               None \<Rightarrow> objects
             | Some p \<Rightarrow>
                 if authorOf p \<notin> Some ` set allowedAuthorIDs then objects
                 else AList.update (publicID p) p objects)
          (getPicksInTimespan q startTime endTime) []"

subsection \<open>loadPicksForOrigin\<close>

text \<open>The hypocentre read at the top of the function.\<close>

record hypocentre =
  etime :: real
  elat :: real
  elon :: real
  edep :: real

definition hypocentre_of :: "origin \<Rightarrow> hypocentre" where
  "hypocentre_of org =
     \<lparr>etime = otime org, elat = latitude org, elon = longitude org, edep = depth org\<rparr>"

text \<open>
  Lines 161 to 180 and again lines 243 to 262: the station lookup (KeyError is caught
  and the pick skipped), the distance test, the travel time (\<open>ttimes[0]\<close> raises
  IndexError on an empty list) and the residual \<open>dt\<close>.
\<close>

datatype prediction = Skipped | Failed pyerror | Predicted real real

definition predict ::
  "seismology \<Rightarrow> hypocentre \<Rightarrow> ((string \<times> string) \<rightharpoonup> station) \<Rightarrow> real \<Rightarrow> nslc \<Rightarrow> pick \<Rightarrow> prediction" where
  "predict lib h station maxDelta k p =
     (case k of (n, s, l, c) \<Rightarrow>
        (case station (n, s) of
           None \<Rightarrow> Skipped
         | Some sta \<Rightarrow>
             (let delta = delazi_wgs84 lib (elat h) (elon h) (fst sta) (snd sta) in
              if delta > maxDelta then Skipped
              else (case compute lib (edep h) delta of
                      [] \<Rightarrow> Failed IndexError
                    | ptime # _ \<Rightarrow> Predicted delta (pickTime p - (etime h + snd ptime))))))"

text \<open>The first loop (lines 157 to 185), which fills \<open>picks_of_interest\<close>.\<close>

definition collect_body ::
  "seismology \<Rightarrow> hypocentre \<Rightarrow> ((string \<times> string) \<rightharpoonup> station) \<Rightarrow> real \<Rightarrow> real \<Rightarrow>
   string \<times> pick \<Rightarrow> (string \<times> pick) list \<Rightarrow> (string \<times> pick) list \<times> pyerror option" where
  "collect_body lib h station maxDelta maxResidual kp picks_of_interest =
     (case kp of (pid, p) \<Rightarrow>
        (case predict lib h station maxDelta (nslc p) p of
           Skipped \<Rightarrow> (picks_of_interest, None)
         | Failed e \<Rightarrow> (picks_of_interest, Some e)
         | Predicted delta dt \<Rightarrow>
             if \<not> (- 4 * maxResidual < dt \<and> dt < 4 * maxResidual) then (picks_of_interest, None)
             else (AList.update pid p picks_of_interest, None)))"

text \<open>Lines 191 to 202: one list of picks per stream, then each list sorted by creation time.\<close>

definition group_body :: "string \<times> pick \<Rightarrow> (nslc \<times> pick list) list \<Rightarrow> (nslc \<times> pick list) list" where
  "group_body kp picks_per_nslc =
     (case kp of (pid, p) \<Rightarrow>
        (case map_of picks_per_nslc (nslc p) of
           None \<Rightarrow> AList.update (nslc p) [p] picks_per_nslc
         | Some ps \<Rightarrow> AList.update (nslc p) (ps @ [p]) picks_per_nslc))"

definition group_picks :: "(string \<times> pick) list \<Rightarrow> (nslc \<times> pick list) list" where
  "group_picks picks = fold group_body picks []"

definition sort_groups :: "(nslc \<times> pick list) list \<Rightarrow> (nslc \<times> pick list) list" where
  "sort_groups picks_per_nslc = map (\<lambda>(k, ps). (k, sort_key creationTime ps)) picks_per_nslc"

text \<open>Lines 206 to 211.\<close>

definition associated_picks_of :: "query \<Rightarrow> origin \<Rightarrow> (string \<times> pick) list" where
  "associated_picks_of q org =
     fold (\<lambda>obj acc. case obj of None \<Rightarrow> acc | Some p \<Rightarrow> AList.update (publicID p) p acc)
          (getPicksOfOrigin q (originID org)) []"

text \<open>
  Lines 220 to 224, the loop over the arrivals that are left: \<open>associated_picks[pickID]\<close>
  raises KeyError for an arrival whose pick the query did not return.
\<close>

definition manual_body ::
  "(string \<times> pick) list \<Rightarrow> arrival \<Rightarrow> (string \<times> pick) list \<times> (nslc \<times> string) list \<Rightarrow>
   ((string \<times> pick) list \<times> (nslc \<times> string) list) \<times> pyerror option" where
  "manual_body associated_picks arr st =
     (case st of (manual_picks, stream_phase_list) \<Rightarrow>
        (case map_of associated_picks (pickID arr) of
           None \<Rightarrow> (st, Some KeyError)
         | Some p \<Rightarrow>
             ((AList.update (pickID arr) p manual_picks,
               stream_phase_list @ [(waveformID p, phase arr)]), None)))"

text \<open>
  Lines 233 to 280, the association loop. The local \<open>stream_phase_list\<close> is bound only
  in the \<open>keepManualPicks\<close> branch: \<open>None\<close> is the unbound local, and reading it raises
  NameError. The state of the loop is the origin and the list \<open>picks\<close>.
\<close>

definition new_arrival :: "pick \<Rightarrow> real \<Rightarrow> real \<Rightarrow> arrival" where
  "new_arrival p delta maxDelta =
     \<lparr>pickID = publicID p, phase = ''P'', timeUsed = Some (delta \<le> maxDelta),
      weight = 1, distance = None\<rparr>"

definition associate_body ::
  "seismology \<Rightarrow> hypocentre \<Rightarrow> ((string \<times> string) \<rightharpoonup> station) \<Rightarrow> real \<Rightarrow> real \<Rightarrow>
   (nslc \<times> string) list option \<Rightarrow> nslc \<times> pick list \<Rightarrow> origin \<times> pick list \<Rightarrow>
   (origin \<times> pick list) \<times> pyerror option" where
  "associate_body lib h station maxDelta maxResidual stream_phase_list g st =
     (case g of (k, ps) \<Rightarrow>
        (case ps of
           [] \<Rightarrow> (st, Some IndexError)
         | p # _ \<Rightarrow>
             (case stream_phase_list of
                None \<Rightarrow> (st, Some NameError)
              | Some spl \<Rightarrow>
                  if (waveformID p, ''P'') \<in> set spl then (st, None)
                  else
                    (case predict lib h station maxDelta k p of
                       Skipped \<Rightarrow> (st, None)
                     | Failed e \<Rightarrow> (st, Some e)
                     | Predicted delta dt \<Rightarrow>
                         if \<not> (- 2 * maxResidual < dt \<and> dt < 2 * maxResidual) then (st, None)
                         else
                           (case st of (org, picks) \<Rightarrow>
                              ((org\<lparr>arrivals := arrivals org @ [new_arrival p delta maxDelta]\<rparr>,
                                picks @ [p]), None))))))"

text \<open>
  Lines 136 to 187: the picks of the time span of 20 minutes after the origin time,
  narrowed by the first loop. The result is \<open>picks_of_interest\<close>, or the exception.
\<close>

definition candidates ::
  "seismology \<Rightarrow> origin \<Rightarrow> inventory \<Rightarrow> string list \<Rightarrow> real \<Rightarrow> real \<Rightarrow> query \<Rightarrow>
   (string \<times> pick) list \<times> pyerror option" where
  "candidates lib org inventory allowedAuthorIDs maxDelta maxResidual q =
     (let h = hypocentre_of org;
          station = getStations inventory (etime h);
          startTime = otime org;
          endTime = startTime + 1200;
          picks = loadPicksForTimespan q startTime endTime allowedAuthorIDs
      in for_each (collect_body lib h station maxDelta maxResidual) picks [])"

text \<open>
  The whole function. The result is the origin object as the call leaves it (it is
  mutated in place, also when the call raises) and either the returned list \<open>picks\<close>
  or the exception. The final loop over the arrivals only logs.
\<close>

datatype 'a outcome = Returns 'a | Raises pyerror

definition loadPicksForOrigin ::
  "seismology \<Rightarrow> (arrival \<Rightarrow> bool) \<Rightarrow> origin \<Rightarrow> inventory \<Rightarrow> string list \<Rightarrow> real \<Rightarrow> real \<Rightarrow>
   query \<Rightarrow> bool \<Rightarrow> origin \<times> pick list outcome" where
  "loadPicksForOrigin lib isManual org inventory allowedAuthorIDs maxDelta maxResidual q keepManualPicks =
     (let h = hypocentre_of org;
          station = getStations inventory (etime h)
      in case candidates lib org inventory allowedAuthorIDs maxDelta maxResidual q of
           (_, Some e) \<Rightarrow> (org, Raises e)
         | (picks_of_interest, None) \<Rightarrow>
             (let picks_per_nslc = sort_groups (group_picks picks_of_interest);
                  org1 = loadArrivals q (clearAllArrivals org);
                  associated_picks = associated_picks_of q org1
              in if keepManualPicks then
                   (let org2 = clearAutomaticArrivals isManual org1
                    in case for_each (manual_body associated_picks) (arrivals org2) ([], []) of
                         (_, Some e) \<Rightarrow> (org2, Raises e)
                       | ((manual_picks, stream_phase_list), None) \<Rightarrow>
                           (case for_each
                                   (associate_body lib h station maxDelta maxResidual
                                      (Some stream_phase_list))
                                   picks_per_nslc (org2, map snd manual_picks) of
                              ((org3, _), Some e) \<Rightarrow> (org3, Raises e)
                            | ((org3, picks'), None) \<Rightarrow> (org3, Returns picks')))
                 else
                   (let org2 = clearAllArrivals org1
                    in case for_each
                              (associate_body lib h station maxDelta maxResidual None)
                              picks_per_nslc (org2, []) of
                         ((org3, _), Some e) \<Rightarrow> (org3, Raises e)
                       | ((org3, picks'), None) \<Rightarrow> (org3, Returns picks'))))"

section \<open>scdlpicker-client.py\<close>

subsection \<open>What the client reads from outside\<close>

text \<open>
  The module-level lists \<open>ignoredAuthors\<close> and \<open>emptyOriginAgencyIDs\<close> (both are \<open>[]\<close>
  in the source and never mutated; the methods that read the bare names read these, not
  the attributes of the application object).
\<close>

record module_globals =
  ignoredAuthors :: "string list"
  emptyOriginAgencyIDs :: "string list"

definition client_globals :: module_globals where
  "client_globals = \<lparr>ignoredAuthors = [], emptyOriginAgencyIDs = []\<rparr>"

text \<open>
  The attributes of the application object that \<open>processOrigin\<close> and the methods it calls
  read: \<open>self.ignoredAgencyIDs\<close>, \<open>self.emptyOriginAgencyIDs\<close>, \<open>self.author()\<close>,
  \<open>self.pickingConfig\<close> (\<open>repickManualPicks\<close>, \<open>tryUpickedStations\<close>, \<open>beforeP\<close>,
  \<open>afterP\<close>), \<open>self.configuredStreams\<close> and \<open>self.components\<close>.
\<close>

record app_config =
  self_ignoredAgencyIDs :: "string list"
  self_emptyOriginAgencyIDs :: "string list"
  self_author :: string
  repickManualPicks :: bool
  tryUpickedStations :: bool
  beforeP :: real
  afterP :: real
  configuredStreams :: "nslc list"
  components :: "nslc \<rightharpoonup> string list"

text \<open>
  A waveform record: its network, station, location and channel code, the stream ID
  that \<open>rec.streamID()\<close> returns, its start and its end time.
\<close>

record wrecord =
  networkCode :: string
  stationCode :: string
  locationCode :: string
  channelCode :: string
  streamID :: string
  startTime :: real
  endTime :: real

text \<open>
  Modelled from the spec: \<open>scdlpicker.util.nslc\<close> is not among the sources; of a record it
  gives the four codes ("group retained streams by (network, station, location)").
\<close>

definition record_nslc :: "wrecord \<Rightarrow> nslc" where
  "record_nslc r = (networkCode r, stationCode r, locationCode r, channelCode r)"

text \<open>
  Modelled from the spec: the class \<open>EventWorkspace\<close> of \<open>scdlpicker.eventworkspace\<close> is
  not among the sources. It is the "per-event aggregate of all_picks, new_picks,
  attempted_picks, mlpicks and waveforms", with the origin being processed. Its method
  \<open>dump\<close> writes the waveforms to files and is taken to leave the workspace as it is;
  whether it raises is up to the world outside.
\<close>

record workspace =
  ws_origin :: "origin option"
  all_picks :: "(string \<times> pick) list"
  new_picks :: "(string \<times> pick) list"
  attempted_picks :: "(string \<times> pick) list"
  mlpicks :: "(string \<times> pick) list"
  waveforms :: "(string \<times> wrecord list) list"

text \<open>
  The world outside: the SeisComP library, the database, the streams of the inventory at
  the present time (network, station, location and stream code, station latitude and
  longitude), \<open>Pick.Find\<close>, \<open>Time.toString\<close> with the format of \<open>findUnpickedStations\<close> cut
  to 18 characters, the miniSEED files that exist already (by event and stream key), the
  record stream (the records it delivers for the streams added; \<open>None\<close> ends the
  iteration), \<open>scdlpicker.util.prepare\<close>, which is not among the sources and of which the
  spec says nothing, and the outcome of \<open>workspace.dump\<close>.
\<close>

record world =
  seiscomp :: seismology
  database :: query
  inventoryStreams :: "(string \<times> string \<times> string \<times> string \<times> real \<times> real) list"
  pickFind :: "string \<Rightarrow> bool"
  timestamp :: "real \<Rightarrow> string"
  mseedExists :: "string \<Rightarrow> string \<Rightarrow> bool"
  recordStream :: "(string \<times> string \<times> string \<times> string \<times> real \<times> real) list \<Rightarrow> wrecord option list"
  prepare :: "wrecord list \<Rightarrow> wrecord list"
  dump :: "workspace \<Rightarrow> pyerror option"

text \<open>
  Modelled from the spec: \<open>scdlpicker.util.manual\<close> is not among the sources; a pick is manual
  when its evaluation mode says so.
\<close>

definition is_manual :: "pick \<Rightarrow> bool" where
  "is_manual p = manual p"

text \<open>
  Modelled from the spec: \<open>scdlpicker.util.gappy\<close> is not among the sources. "Consecutive records
  on the same stream must be contiguous within a configurable tolerance": a stream is
  gappy when some record starts more than the tolerance after the end of the one before.
\<close>

fun gappy :: "wrecord list \<Rightarrow> real \<Rightarrow> bool" where
  "gappy (r1 # r2 # rs) tolerance =
     (startTime r2 - endTime r1 > tolerance \<or> gappy (r2 # rs) tolerance)"
| "gappy rs tolerance = False"

subsection \<open>isRepick\<close>

definition methodIDs :: "string list" where
  "methodIDs = [''DL'', ''PhaseNet'', ''PHN'', ''EQTransformer'', ''EQT'', ''XYZ'']"

definition isRepick :: "pick \<Rightarrow> string option \<Rightarrow> bool" where
  "isRepick p au =
     (if methodID p \<in> set methodIDs then True
      else (case au of
              None \<Rightarrow> False
            | Some a \<Rightarrow> (case author p of None \<Rightarrow> False | Some b \<Rightarrow> b = a)))"

subsection \<open>getAssociatedPicksForOrigin\<close>

text \<open>
  An object that is no pick, or a pick without creation info, raises inside the \<open>try\<close>
  and is skipped; so is a pick of an ignored author.
\<close>

definition getAssociatedPicksForOrigin :: "module_globals \<Rightarrow> world \<Rightarrow> string \<Rightarrow> pick list" where
  "getAssociatedPicksForOrigin g w oid =
     concat (map (\<lambda>obj. case obj of
                           None \<Rightarrow> []
                         | Some p \<Rightarrow>
                             (case author p of
                                None \<Rightarrow> []
                              | Some a \<Rightarrow> if a \<in> set (ignoredAuthors g) then [] else [p]))
                 (getPicksOfOrigin (database w) oid))"

subsection \<open>The adaptive maximum distance (lines 709 to 741 of processOrigin)\<close>

text \<open>
  A Python float is an IEEE 754 binary64 number: a real with a significand of 53 bits and
  an exponent from -1022 to 1023, plus or minus infinity, or NaN. Every operation gives the
  exact result rounded to the nearest such number, ties to the even significand; a result
  of magnitude \<open>2 ^ 1024\<close> or more is an infinity. The two zeros are one value here (no
  comparison tells them apart). Every comparison with NaN is false.
\<close>

datatype pyfloat = Num real | NaN | PInf | NInf

text \<open>
  The exponent of the binade of a positive real, found by halving or doubling, and kept
  within the range of the format (below \<open>2 ^ (- 1022)\<close> the numbers are subnormal and share
  the least exponent).
\<close>

function exponent_up :: "int \<Rightarrow> real \<Rightarrow> int" where
  "exponent_up e x = (if x < 2 \<or> 1024 \<le> e then e else exponent_up (e + 1) (x / 2))"
  by pat_completeness auto
termination by (relation "measure (\<lambda>(e, x). nat (1024 - e))") auto

function exponent_down :: "int \<Rightarrow> real \<Rightarrow> int" where
  "exponent_down e x = (if 1 \<le> x \<or> e \<le> - 1022 then e else exponent_down (e - 1) (2 * x))"
  by pat_completeness auto
termination by (relation "measure (\<lambda>(e, x). nat (e + 1022))") auto

declare exponent_up.simps [simp del] exponent_down.simps [simp del]

definition exponent :: "real \<Rightarrow> int" where
  "exponent x = (if 1 \<le> \<bar>x\<bar> then exponent_up 0 \<bar>x\<bar> else exponent_down 0 \<bar>x\<bar>)"

text \<open>The distance between neighbouring binary64 numbers around \<open>x\<close>.\<close>

definition ulp :: "real \<Rightarrow> real" where
  "ulp x = (let e = exponent x - 52 in if 0 \<le> e then 2 ^ nat e else 1 / 2 ^ nat (- e))"

definition round_even :: "real \<Rightarrow> int" where
  "round_even x =
     (let f = \<lfloor>x\<rfloor>; d = x - of_int f
      in if d < 1 / 2 then f else if 1 / 2 < d then f + 1 else if even f then f else f + 1)"

definition binary64 :: "real \<Rightarrow> pyfloat" where
  "binary64 x =
     (let q = ulp x; r = of_int (round_even (x / q)) * q
      in if 2 ^ 1024 \<le> r then PInf else if r \<le> - (2 ^ 1024) then NInf else Num r)"

fun fadd :: "pyfloat \<Rightarrow> pyfloat \<Rightarrow> pyfloat" where
  "fadd (Num a) (Num b) = binary64 (a + b)"
| "fadd NaN y = NaN"
| "fadd x NaN = NaN"
| "fadd PInf NInf = NaN"
| "fadd NInf PInf = NaN"
| "fadd PInf y = PInf"
| "fadd x PInf = PInf"
| "fadd NInf y = NInf"
| "fadd x NInf = NInf"

text \<open>Division by a count (a positive whole number).\<close>

fun fdiv :: "pyfloat \<Rightarrow> nat \<Rightarrow> pyfloat" where
  "fdiv (Num a) n = binary64 (a / real n)"
| "fdiv x n = x"

text \<open>
  \<open>numpy.average\<close> of a list of floats, without weights: the mean of the array of these
  binary64 numbers, which numpy computes as the sum of the elements divided by their
  number. numpy is not among the sources; for fewer than eight elements it adds them one
  after the other, from the left, starting from zero (the only call,
  \<open>numpy.average(delta[-3:])\<close>, passes at most three). The mean of no element is NaN.
\<close>

definition numpy_average :: "real list \<Rightarrow> pyfloat" where
  "numpy_average xs =
     (if xs = [] then NaN else fdiv (foldl fadd (Num 0) (map binary64 xs)) (length xs))"

definition gt :: "pyfloat \<Rightarrow> real \<Rightarrow> bool" where
  "gt x y = (case x of Num v \<Rightarrow> v > y | NaN \<Rightarrow> False | PInf \<Rightarrow> True | NInf \<Rightarrow> False)"

text \<open>The distances of the used arrivals, as the loop over the arrivals collects them.\<close>

definition used_distances :: "origin \<Rightarrow> real list" where
  "used_distances org =
     concat (map (\<lambda>arr. if weight arr < 0.5 then []
                         else (case distance arr of None \<Rightarrow> [] | Some d \<Rightarrow> [d]))
                 (arrivals org))"

definition adaptive_maxDelta :: "module_globals \<Rightarrow> origin \<Rightarrow> pyfloat" where
  "adaptive_maxDelta g org =
     (if agencyID org \<in> set (emptyOriginAgencyIDs g) then Num 105
      else (let delta = sort (used_distances org);
                maxDelta = numpy_average (drop (length delta - 3) delta)
            in if gt maxDelta 40 then Num 105 else maxDelta))"

subsection \<open>findUnpickedStations\<close>

definition lt :: "pyfloat \<Rightarrow> real \<Rightarrow> bool" where
  "lt x y = (case x of Num v \<Rightarrow> v < y | NaN \<Rightarrow> False | PInf \<Rightarrow> False | NInf \<Rightarrow> True)"

text \<open>
  The predicted pick: phase hint P, the predicted time, the vertical channel; no
  creation info is set (the creation time of a predicted pick is never read; it is 0 here).
\<close>

definition predicted_pick :: "string \<Rightarrow> string \<Rightarrow> string \<Rightarrow> string \<Rightarrow> string \<Rightarrow> real \<Rightarrow> pick" where
  "predicted_pick pid net sta loc cha t =
     \<lparr>publicID = pid, waveformID = (net, sta, loc, cha @ ''Z''), pickTime = t,
      author = None, creationTime = 0, methodID = [], manual = False\<rparr>"

text \<open>
  The body of the loop over the inventory. \<open>arrivals[0]\<close> (line 367) raises IndexError
  when the travel time table returns no arrival.
\<close>

definition unpicked_body ::
  "world \<Rightarrow> app_config \<Rightarrow> origin \<Rightarrow> pyfloat \<Rightarrow> (string \<times> string) list \<Rightarrow>
   string \<times> string \<times> string \<times> string \<times> real \<times> real \<Rightarrow> (string \<times> pick) list \<Rightarrow>
   (string \<times> pick) list \<times> pyerror option" where
  "unpicked_body w app org maxDelta net_sta_blacklist s predictedPicks =
     (case s of (net, sta, loc, code, slat, slon) \<Rightarrow>
        (let cha = take 2 code in
         if (net, sta) \<in> set net_sta_blacklist then (predictedPicks, None)
         else if (net, sta, (if loc = [] then ''--'' else loc), cha) \<notin> set (configuredStreams app)
           then (predictedPicks, None)
         else
           (let delta = delazi (seiscomp w) (latitude org) (longitude org) slat slon in
            if lt maxDelta delta then (predictedPicks, None)
            else
              (case compute (seiscomp w) (depth org) delta of
                 [] \<Rightarrow> (predictedPicks, Some IndexError)
               | firstArrival # _ \<Rightarrow>
                   (let t = otime org + snd firstArrival;
                        pid = timestamp w t @ ''-PRE-'' @ net @ ''.'' @ sta @ ''.'' @ loc @ ''.'' @ cha
                    in if pickFind w pid then (predictedPicks, None)
                       else if \<not> haskey predictedPicks pid
                         then (AList.update pid (predicted_pick pid net sta loc cha t) predictedPicks, None)
                       else (predictedPicks, None))))))"

definition findUnpickedStations ::
  "world \<Rightarrow> app_config \<Rightarrow> origin \<Rightarrow> pyfloat \<Rightarrow> (string \<times> pick) list \<Rightarrow> (string \<times> pick) list outcome" where
  "findUnpickedStations w app org maxDelta picks =
     (let net_sta_blacklist =
            map (\<lambda>(pid, p). case nslc p of (net, sta, loc, cha) \<Rightarrow> (net, sta)) picks
      in case for_each (unpicked_body w app org maxDelta net_sta_blacklist) (inventoryStreams w) [] of
           (predictedPicks, None) \<Rightarrow> Returns predictedPicks
         | (_, Some e) \<Rightarrow> Raises e)"

subsection \<open>_loadWaveformsForPicks\<close>

text \<open>Lines 404 to 439: the time window to request for each stream that is not on disk yet.\<close>

definition request_body ::
  "world \<Rightarrow> app_config \<Rightarrow> string \<Rightarrow> string \<times> pick \<Rightarrow> (nslc \<times> real \<times> real) list \<Rightarrow>
   (nslc \<times> real \<times> real) list" where
  "request_body w app eventID kp request =
     (case kp of (pid, p) \<Rightarrow>
        (case waveformID p of (net, sta, loc0, cha0) \<Rightarrow>
           (let loc = (if loc0 = [] then ''--'' else loc0);
                cha = (if length cha0 = 2 then cha0 @ ''Z'' else cha0);
                key = net @ ''.'' @ sta @ ''.'' @ loc @ ''.'' @ cha
            in if mseedExists w eventID key then request
               else
                 (let t0 = pickTime p;
                      t1 = t0 + (- beforeP app);
                      t2 = t0 + afterP app
                  in if components app (net, sta, loc, take 2 cha) = None then request
                     else AList.update (net, sta, loc, cha) (t1, t2) request))))"

text \<open>Lines 449 to 455: the streams added to the record stream, in the order of the sorted keys.\<close>

definition addStream_body ::
  "app_config \<Rightarrow> (nslc \<times> real \<times> real) list \<Rightarrow> nslc \<Rightarrow>
   (string \<times> string \<times> string \<times> string \<times> real \<times> real) list \<Rightarrow>
   (string \<times> string \<times> string \<times> string \<times> real \<times> real) list \<times> pyerror option" where
  "addStream_body app request k added =
     (case k of (net, sta, loc, cha) \<Rightarrow>
        (case map_of request k of
           None \<Rightarrow> (added, Some KeyError)
         | Some (t1, t2) \<Rightarrow>
             (case components app (net, sta, loc, take 2 cha) of
                None \<Rightarrow> (added, Some KeyError)
              | Some comps \<Rightarrow>
                  (added @ map (\<lambda>comp. (net, sta, (if loc = ''--'' then [] else loc),
                                         take 2 cha @ comp, t1, t2)) comps, None))))"

text \<open>Lines 460 to 467: the records received, up to the first \<open>None\<close>, one list per stream.\<close>

fun until_None :: "'a option list \<Rightarrow> 'a list" where
  "until_None [] = []"
| "until_None (None # xs) = []"
| "until_None (Some x # xs) = x # until_None xs"

definition receive_body :: "wrecord \<Rightarrow> (string \<times> wrecord list) list \<Rightarrow> (string \<times> wrecord list) list" where
  "receive_body rec wfs =
     (case map_of wfs (streamID rec) of
        None \<Rightarrow> AList.update (streamID rec) [rec] wfs
      | Some recs \<Rightarrow> AList.update (streamID rec) (recs @ [rec]) wfs)"

text \<open>
  Lines 478 to 486, "remove gappy streams": every stream is prepared, the gappy ones
  are collected in \<open>gappyStreams\<close>, and for each of them a warning is logged. The
  dictionary itself is not touched again.
\<close>

definition gappyStreams :: "(string \<times> wrecord list) list \<Rightarrow> string list" where
  "gappyStreams wfs = map fst (filter (\<lambda>(sid, recs). gappy recs 1) wfs)"

definition loadWaveformsForPicks ::
  "world \<Rightarrow> app_config \<Rightarrow> (string \<times> pick) list \<Rightarrow> string \<Rightarrow>
   ((string \<times> wrecord list) list \<times> string list) outcome" where
  "loadWaveformsForPicks w app picks eventID =
     (let request = fold (request_body w app eventID) picks []
      in if request = [] then Returns ([], [])
         else
           (case for_each (addStream_body app request) (sort (map fst request)) [] of
              (_, Some e) \<Rightarrow> Raises e
            | (added, None) \<Rightarrow>
                (let received = fold receive_body (until_None (recordStream w added)) [];
                     prepared = map (\<lambda>(sid, recs). (sid, prepare w recs)) received
                 in Returns (prepared,
                      map (\<lambda>sid. ''Gappy stream '' @ sid @ '' ignored'') (gappyStreams prepared)))))"

subsection \<open>processOrigin\<close>

text \<open>
  The loop over the associated picks (lines 654 to 695). Its state is the workspace and
  the debug log. The test of \<open>workspace.mlpicks\<close> (line 670) logs and goes on.
\<close>

definition pick_body :: "app_config \<Rightarrow> pick \<Rightarrow> workspace \<times> string list \<Rightarrow> workspace \<times> string list" where
  "pick_body app p st =
     (case st of (ws, log0) \<Rightarrow>
        (let pid = publicID p;
             ws1 = (if \<not> haskey (all_picks ws) pid
                    then ws\<lparr>all_picks := AList.update pid p (all_picks ws)\<rparr> else ws);
             log1 = (if \<not> haskey (all_picks ws) pid
                     then log0 @ [''Added to workspace pick '' @ pid] else log0)
         in if is_manual p \<and> \<not> repickManualPicks app
              then (ws1, log1 @ [''Skipping manual pick '' @ pid])
            else
              (let log2 = (if haskey (mlpicks ws1) pid
                           then log1 @ [''Skipping already repicked '' @ pid] else log1)
               in if haskey (attempted_picks ws1) pid
                    then (ws1, log2 @ [''Skipping previously attempted repick '' @ pid])
                  else if isRepick p (Some (self_author app))
                    then (ws1, log2 @ [''Skipping repick '' @ pid])
                  else if list_ex (\<lambda>(pid', p'). waveformID p' = waveformID p) (attempted_picks ws1)
                    then (ws1, log2 @ [''Skipped previously attempted waveform ID of pick '' @ pid])
                  else (ws1\<lparr>new_picks := AList.update pid p (new_picks ws1),
                             attempted_picks := AList.update pid p (attempted_picks ws1)\<rparr>,
                        log2 @ [''Adding new pick '' @ pid]))))"

text \<open>The loop over the predicted picks (lines 748 to 757).\<close>

definition predicted_body :: "string \<times> pick \<Rightarrow> workspace \<times> string list \<Rightarrow> workspace \<times> string list" where
  "predicted_body kp st =
     (case kp of (pid, p) \<Rightarrow>
        (case st of (ws, log0) \<Rightarrow>
           if \<not> haskey (all_picks ws) pid then
             (let ws1 = ws\<lparr>all_picks := AList.update pid p (all_picks ws)\<rparr>
              in if haskey (attempted_picks ws1) pid
                   then (ws1, log0 @ [''Skipping previously attempted repick '' @ pid])
                 else (ws1\<lparr>new_picks := AList.update pid p (new_picks ws1),
                            attempted_picks := AList.update pid p (attempted_picks ws1)\<rparr>, log0))
           else (ws, log0)))"

definition store_waveforms :: "(string \<times> wrecord list) list \<Rightarrow> workspace \<Rightarrow> workspace" where
  "store_waveforms wfs ws =
     ws\<lparr>waveforms := fold (\<lambda>(sid, recs). AList.update sid recs) wfs (waveforms ws)\<rparr>"

text \<open>
  Lines 642 to 762, on the workspace of the event: the new picks, their waveforms, the
  predicted picks and theirs. The result is the workspace as it is then (also when an
  exception is raised), the log and the exception, if any.
\<close>

definition processOrigin_picks ::
  "module_globals \<Rightarrow> app_config \<Rightarrow> world \<Rightarrow> origin \<Rightarrow> string \<Rightarrow> workspace \<Rightarrow>
   (workspace \<times> string list) \<times> pyerror option" where
  "processOrigin_picks g app w org eventID ws0 =
     (let ws1 = ws0\<lparr>ws_origin := Some org, new_picks := []\<rparr>;
          associated_picks = getAssociatedPicksForOrigin g w (originID org);
          st2 = fold (pick_body app) associated_picks (ws1, [])
      in case loadWaveformsForPicks w app (new_picks (fst st2)) eventID of
           Raises e \<Rightarrow> (st2, Some e)
         | Returns (wfs, warnings) \<Rightarrow>
             (let st3 = (store_waveforms wfs (fst st2), snd st2 @ warnings);
                  maxDelta = adaptive_maxDelta g org
              in if tryUpickedStations app then
                   (case findUnpickedStations w app org maxDelta (all_picks (fst st3)) of
                      Raises e \<Rightarrow> (st3, Some e)
                    | Returns predictedPicks \<Rightarrow>
                        if length predictedPicks > 0 then
                          (let st4 = fold predicted_body predictedPicks st3
                           in case loadWaveformsForPicks w app (new_picks (fst st4)) eventID of
                                Raises e \<Rightarrow> (st4, Some e)
                              | Returns (wfs2, warnings2) \<Rightarrow>
                                  ((store_waveforms wfs2 (fst st4), snd st4 @ warnings2), None))
                        else (st3, None))
                 else (st3, None)))"

text \<open>
  Lines 769 to 776: the stream IDs of the workspace, one list per network, station and
  location code of the first record of the stream (\<open>workspace.waveforms[streamID][0]\<close>
  raises IndexError for a stream without records).
\<close>

definition streamIDs_body ::
  "string \<times> wrecord list \<Rightarrow> ((string \<times> string \<times> string) \<times> string list) list \<Rightarrow>
   ((string \<times> string \<times> string) \<times> string list) list \<times> pyerror option" where
  "streamIDs_body kr streamIDs =
     (case kr of (sid, recs) \<Rightarrow>
        (case recs of
           [] \<Rightarrow> (streamIDs, Some IndexError)
         | firstRecord # _ \<Rightarrow>
             (case record_nslc firstRecord of (net, sta, loc, cha) \<Rightarrow>
                (case map_of streamIDs (net, sta, loc) of
                   None \<Rightarrow> (AList.update (net, sta, loc) [sid] streamIDs, None)
                 | Some sids \<Rightarrow> (AList.update (net, sta, loc) (sids @ [sid]) streamIDs, None)))))"

text \<open>
  Lines 779 to 784: the streams of a group of fewer than three are deleted from the
  workspace, each with a warning (\<open>del\<close> raises KeyError for a key that is not there).
\<close>

definition del_body ::
  "string \<Rightarrow> workspace \<times> string list \<Rightarrow> (workspace \<times> string list) \<times> pyerror option" where
  "del_body sid st =
     (case st of (ws, log0) \<Rightarrow>
        if \<not> haskey (waveforms ws) sid then (st, Some KeyError)
        else ((ws\<lparr>waveforms := AList.delete sid (waveforms ws)\<rparr>,
               log0 @ [''Incomplete stream '' @ sid @ '' ignored'']), None))"

definition incomplete_body ::
  "(string \<times> string \<times> string) \<times> string list \<Rightarrow> workspace \<times> string list \<Rightarrow>
   (workspace \<times> string list) \<times> pyerror option" where
  "incomplete_body g st =
     (case g of (nsl, sids) \<Rightarrow>
        if length sids < 3 then for_each del_body sids st else (st, None))"

text \<open>
  The function on the workspace of the event, from line 642 to the end: after the picks,
  the dump to files (line 767) and the filter of the streams without three components.
  The result is the workspace as the call leaves it (also when it raises), the log and
  the exception, if any.
\<close>

definition processOrigin_workspace ::
  "module_globals \<Rightarrow> app_config \<Rightarrow> world \<Rightarrow> origin \<Rightarrow> string \<Rightarrow> workspace \<Rightarrow>
   (workspace \<times> string list) \<times> pyerror option" where
  "processOrigin_workspace g app w org eventID ws0 =
     (case processOrigin_picks g app w org eventID ws0 of
        (st, Some e) \<Rightarrow> (st, Some e)
      | (st, None) \<Rightarrow>
          (case dump w (fst st) of
             Some e \<Rightarrow> (st, Some e)
           | None \<Rightarrow>
               (case for_each streamIDs_body (waveforms (fst st)) [] of
                  (_, Some e) \<Rightarrow> (st, Some e)
                | (streamIDs, None) \<Rightarrow> for_each incomplete_body streamIDs st)))"

text \<open>
  The whole method, on the dictionary \<open>self.workspaces\<close>: the two early returns, the
  lookup of the workspace of the event (KeyError when there is none), and the rest.
\<close>

definition processOrigin ::
  "module_globals \<Rightarrow> app_config \<Rightarrow> world \<Rightarrow> origin \<Rightarrow> string \<Rightarrow> (string \<times> workspace) list \<Rightarrow>
   ((string \<times> workspace) list \<times> string list) \<times> pyerror option" where
  "processOrigin g app w org eventID workspaces =
     (if agencyID org \<in> set (self_ignoredAgencyIDs app) then ((workspaces, []), None)
      else if arrivals org = [] \<and> agencyID org \<notin> set (self_emptyOriginAgencyIDs app)
        then ((workspaces, []), None)
      else
        (case map_of workspaces eventID of
           None \<Rightarrow> ((workspaces, []), Some KeyError)
         | Some ws0 \<Rightarrow>
             (case processOrigin_workspace g app w org eventID ws0 of
                ((ws', log'), e) \<Rightarrow> ((AList.update eventID ws' workspaces, log'), e))))"

section \<open>scdlpicker-relocate-event.py\<close>

subsection \<open>Calls and attributes\<close>

text \<open>
  A Python function whose parameters are all positional-or-keyword: their names in
  order, and how many of the last ones have a default. A call with \<open>npos\<close> positional
  arguments and the keyword arguments \<open>kws\<close> raises TypeError when there are too many
  positional arguments, when a keyword names no parameter or one that a positional
  argument has filled, or when a parameter without default is left unfilled.
\<close>

record signature =
  params :: "string list"
  defaults :: nat

definition bind_call :: "signature \<Rightarrow> nat \<Rightarrow> string list \<Rightarrow> pyerror option" where
  "bind_call sg npos kws =
     (if length (params sg) < npos then Some TypeError
      else if list_ex (\<lambda>k. k \<notin> set (params sg)) kws then Some TypeError
      else if list_ex (\<lambda>k. k \<in> set (take npos (params sg))) kws then Some TypeError
      else if list_ex (\<lambda>p. p \<notin> set (take npos (params sg)) \<and> p \<notin> set kws)
                (take (length (params sg) - defaults sg) (params sg)) then Some TypeError
      else None)"

text \<open>The signatures of dbutil.py (lines 27, 53 and 135).\<close>

definition loadEvent_sig :: signature where
  "loadEvent_sig = \<lparr>params = [''query'', ''publicID''], defaults = 0\<rparr>"

definition loadOrigin_sig :: signature where
  "loadOrigin_sig = \<lparr>params = [''query'', ''publicID''], defaults = 0\<rparr>"

definition loadPicksForOrigin_sig :: signature where
  "loadPicksForOrigin_sig =
     \<lparr>params = [''origin'', ''inventory'', ''allowedAuthorIDs'', ''maxDelta'', ''maxResidual'',
                ''query'', ''keepManualPicks''],
      defaults = 1\<rparr>"

text \<open>The positional arguments of the call at lines 109 to 111, as written.\<close>

definition loadPicksForOrigin_args :: "string list" where
  "loadPicksForOrigin_args =
     [''self.query()'', ''origin'', ''self.inventory'', ''self.allowedAuthorIDs'', ''self.maxDelta'']"

text \<open>
  The attributes of the application object; reading one that was never assigned raises
  AttributeError. The command line gives the options that were passed; \<open>optionString\<close>
  and \<open>optionDouble\<close> raise RuntimeError for the others.
\<close>

datatype pyval = PyNone | PyStr string | PyFloat real | PyStrs "string list" | PyObject

type_synonym attributes = "string \<rightharpoonup> pyval"

definition getattr :: "attributes \<Rightarrow> string \<Rightarrow> pyerror + pyval" where
  "getattr self name = (case self name of None \<Rightarrow> Inl AttributeError | Some v \<Rightarrow> Inr v)"

record cmdline =
  optionString :: "string \<rightharpoonup> string"
  optionDouble :: "string \<rightharpoonup> real"
  hasOption :: "string \<Rightarrow> bool"

subsection \<open>RelocatorApp.run and RelocatorApp.processEvent\<close>

text \<open>The assignments of \<open>run\<close> (lines 150 to 163); \<open>pickAuthors\<close> is a local.\<close>

definition run_assignments :: "cmdline \<Rightarrow> attributes \<Rightarrow> attributes" where
  "run_assignments c self =
     self(''author'' \<mapsto> PyStr (case optionString c ''author'' of None \<Rightarrow> ''dl-reloc'' | Some a \<Rightarrow> a),
          ''agencyID'' \<mapsto> PyStr (case optionString c ''agency'' of None \<Rightarrow> ''GFZ'' | Some a \<Rightarrow> a),
          ''fixedDepth'' \<mapsto> (case optionDouble c ''fixed-depth'' of None \<Rightarrow> PyNone | Some d \<Rightarrow> PyFloat d))"

text \<open>
  \<open>processEvent\<close>, statement by statement, with the signatures of \<open>loadEvent\<close> and
  \<open>loadOrigin\<close> as parameters. The arguments of a call are evaluated first, then the
  call is bound. A call that binds is taken to return (the functions called may raise
  more); the result is the list of the calls that were made and the exception, if any.
  \<open>scdlpicker.relocation.relocate\<close> is not among the sources: whether it returns a relocated
  origin is the parameter \<open>relocated\<close>.
\<close>

definition relocator_processEvent ::
  "signature \<Rightarrow> signature \<Rightarrow> bool \<Rightarrow> cmdline \<Rightarrow> attributes \<Rightarrow> string \<Rightarrow> string list \<times> pyerror option" where
  "relocator_processEvent sigE sigO relocated c self eventID =
     (case bind_call sigE 2 [''full''] of
        Some e \<Rightarrow> ([], Some e)
      | None \<Rightarrow>
     (case bind_call sigO 2 [''full''] of
        Some e \<Rightarrow> ([''loadEvent''], Some e)
      | None \<Rightarrow>
     (case getattr self ''inventory'' of
        Inl e \<Rightarrow> ([''loadEvent'', ''loadOrigin''], Some e)
      | Inr _ \<Rightarrow>
     (case getattr self ''allowedAuthorIDs'' of
        Inl e \<Rightarrow> ([''loadEvent'', ''loadOrigin''], Some e)
      | Inr _ \<Rightarrow>
     (case getattr self ''maxDelta'' of
        Inl e \<Rightarrow> ([''loadEvent'', ''loadOrigin''], Some e)
      | Inr _ \<Rightarrow>
     (case bind_call loadPicksForOrigin_sig (length loadPicksForOrigin_args) [] of
        Some e \<Rightarrow> ([''loadEvent'', ''loadOrigin''], Some e)
      | None \<Rightarrow>
     (case getattr self ''fixedDepth'' of
        Inl e \<Rightarrow> ([''loadEvent'', ''loadOrigin'', ''loadPicksForOrigin''], Some e)
      | Inr _ \<Rightarrow>
     (case getattr self ''minimumDepth'' of
        Inl e \<Rightarrow> ([''loadEvent'', ''loadOrigin'', ''loadPicksForOrigin''], Some e)
      | Inr _ \<Rightarrow>
     (case getattr self ''maxResidual'' of
        Inl e \<Rightarrow> ([''loadEvent'', ''loadOrigin'', ''loadPicksForOrigin''], Some e)
      | Inr _ \<Rightarrow>
          if \<not> relocated
            then ([''loadEvent'', ''loadOrigin'', ''loadPicksForOrigin'', ''relocate''], None)
          else
     (case getattr self ''author'' of
        Inl e \<Rightarrow> ([''loadEvent'', ''loadOrigin'', ''loadPicksForOrigin'', ''relocate''], Some e)
      | Inr _ \<Rightarrow>
     (case getattr self ''agencyID'' of
        Inl e \<Rightarrow> ([''loadEvent'', ''loadOrigin'', ''loadPicksForOrigin'', ''relocate''], Some e)
      | Inr _ \<Rightarrow>
          if hasOption c ''test''
            then ([''loadEvent'', ''loadOrigin'', ''loadPicksForOrigin'', ''relocate''], None)
          else ([''loadEvent'', ''loadOrigin'', ''loadPicksForOrigin'', ''relocate'', ''send''],
                None))))))))))))"

text \<open>
  \<open>run\<close>: the assignments, then \<open>processEvent\<close> for each word of the option \<open>event\<close>.
  \<open>str.split()\<close> cuts at runs of the characters for which \<open>str.isspace\<close> holds. The
  characters of a string are here those up to U+00FF; among them the white space is
  U+0009 to U+000D, U+001C to U+001F, the space, U+0085 and U+00A0.
\<close>

definition whitespace :: "char \<Rightarrow> bool" where
  "whitespace ch =
     (ch \<in> set [CHR 0x09, CHR 0x0A, CHR 0x0B, CHR 0x0C, CHR 0x0D, CHR 0x1C, CHR 0x1D, CHR 0x1E,
                CHR 0x1F, CHR '' '', CHR 0x85, CHR 0xA0])"

fun split_acc :: "string \<Rightarrow> string \<Rightarrow> string list" where
  "split_acc [] cur = (if cur = [] then [] else [cur])"
| "split_acc (ch # cs) cur =
     (if whitespace ch then (if cur = [] then split_acc cs [] else cur # split_acc cs [])
      else split_acc cs (cur @ [ch]))"

definition py_split :: "string \<Rightarrow> string list" where
  "py_split s = split_acc s []"

definition relocator_run ::
  "signature \<Rightarrow> signature \<Rightarrow> bool \<Rightarrow> cmdline \<Rightarrow> attributes \<Rightarrow>
   (attributes \<times> string list) \<times> pyerror option" where
  "relocator_run sigE sigO relocated c self =
     (let self' = run_assignments c self
      in case optionString c ''event'' of
           None \<Rightarrow> ((self', []), Some RuntimeError)
         | Some ev \<Rightarrow>
             for_each (\<lambda>eventID st.
                         case relocator_processEvent sigE sigO relocated c (fst st) eventID of
                           (calls, e) \<Rightarrow> ((fst st, snd st @ calls), e))
                      (py_split ev) (self', []))"

section \<open>Notions the statements use\<close>

text \<open>
  What passes the residual test of the first loop, what the association loop appends,
  and the arrivals that \<open>clearAutomaticArrivals\<close> leaves of those the database holds.
\<close>

definition passes4 ::
  "seismology \<Rightarrow> hypocentre \<Rightarrow> ((string \<times> string) \<rightharpoonup> station) \<Rightarrow> real \<Rightarrow> real \<Rightarrow> pick \<Rightarrow> bool" where
  "passes4 lib h station maxDelta maxResidual p =
     (\<exists>delta dt. predict lib h station maxDelta (nslc p) p = Predicted delta dt
        \<and> - 4 * maxResidual < dt \<and> dt < 4 * maxResidual)"

definition accepted ::
  "seismology \<Rightarrow> hypocentre \<Rightarrow> ((string \<times> string) \<rightharpoonup> station) \<Rightarrow> real \<Rightarrow> real \<Rightarrow>
   (nslc \<times> string) list \<Rightarrow> (nslc \<times> pick list) list \<Rightarrow> arrival \<Rightarrow> bool" where
  "accepted lib h station maxDelta maxResidual spl groups a =
     (\<exists>k p ps delta dt. (k, p # ps) \<in> set groups \<and> a = new_arrival p delta maxDelta
        \<and> (waveformID p, ''P'') \<notin> set spl
        \<and> predict lib h station maxDelta k p = Predicted delta dt
        \<and> - 2 * maxResidual < dt \<and> dt < 2 * maxResidual)"

definition manual_arrivals :: "query \<Rightarrow> (arrival \<Rightarrow> bool) \<Rightarrow> origin \<Rightarrow> arrival list" where
  "manual_arrivals q isManual org = filter isManual (storedArrivals q (originID org))"

text \<open>The picks that the query delivers for a time span, in the order of delivery.\<close>

definition delivered :: "query \<Rightarrow> real \<Rightarrow> real \<Rightarrow> pick list" where
  "delivered q t1 t2 =
     concat (map (\<lambda>obj. case obj of None \<Rightarrow> [] | Some p \<Rightarrow> [p]) (getPicksInTimespan q t1 t2))"

text \<open>
  The invariant of a pass, for the set \<open>A\<close> of pick IDs attempted when the pass starts:
  they stay attempted, and none of them is among the new picks.
\<close>

definition pass_inv :: "string set \<Rightarrow> workspace \<Rightarrow> bool" where
  "pass_inv A ws = (A \<subseteq> fst ` set (attempted_picks ws) \<and> fst ` set (new_picks ws) \<inter> A = {})"

text \<open>
  A sequence of passes over \<open>self.workspaces\<close>: each pass is a call of \<open>processOrigin\<close>
  with an origin, the event it belongs to and the world as it is then. A pass that raises
  leaves the workspaces as they are at that moment; the sequence goes on from there.
\<close>

record pass =
  pass_world :: world
  pass_origin :: origin
  pass_event :: string

definition run_pass :: "module_globals \<Rightarrow> app_config \<Rightarrow> pass \<Rightarrow> (string \<times> workspace) list \<Rightarrow> (string \<times> workspace) list" where
  "run_pass g app p wss = fst (fst (processOrigin g app (pass_world p) (pass_origin p) (pass_event p) wss))"

definition run_passes :: "module_globals \<Rightarrow> app_config \<Rightarrow> pass list \<Rightarrow> (string \<times> workspace) list \<Rightarrow> (string \<times> workspace) list" where
  "run_passes g app ps wss = fold (run_pass g app) ps wss"

text \<open>The pick IDs in \<open>attempted_picks\<close> and in \<open>new_picks\<close> of the workspace of an event.\<close>

definition attempted_of :: "(string \<times> workspace) list \<Rightarrow> string \<Rightarrow> string set" where
  "attempted_of wss eid =
     (case map_of wss eid of None \<Rightarrow> {} | Some ws \<Rightarrow> fst ` set (attempted_picks ws))"

definition new_of :: "(string \<times> workspace) list \<Rightarrow> string \<Rightarrow> string set" where
  "new_of wss eid =
     (case map_of wss eid of None \<Rightarrow> {} | Some ws \<Rightarrow> fst ` set (new_picks ws))"






section \<open>A small world to run the model in\<close>

text \<open>
  A toy geometry (distance is the sum of the coordinate differences) and a toy travel
  time table (10 s per degree up to 100 degrees, nothing beyond), two stations on the
  equator at 20 and 30 degrees, an origin at (0, 0) at time 0.
\<close>

definition ex_lib :: seismology where
  "ex_lib = \<lparr>delazi_wgs84 = (\<lambda>elat elon slat slon. \<bar>slat - elat\<bar> + \<bar>slon - elon\<bar>),
             delazi = (\<lambda>elat elon slat slon. \<bar>slat - elat\<bar> + \<bar>slon - elon\<bar>),
             compute = (\<lambda>dep delta. if delta \<le> 100 then [(''P'', 10 * delta)] else [])\<rparr>"

definition ex_inventory :: inventory where
  "ex_inventory = (\<lambda>t. [(''GE'', ''STA1'') \<mapsto> (0, 20), (''GE'', ''STA2'') \<mapsto> (0, 30)])"

definition ex_origin :: origin where
  "ex_origin = \<lparr>originID = ''o1'', otime = 0, latitude = 0, longitude = 0, depth = 10,
                agencyID = ''GFZ'', arrivals = []\<rparr>"

definition ex_pick1 :: pick where
  "ex_pick1 = \<lparr>publicID = ''p1'', waveformID = (''GE'', ''STA1'', [], ''BHZ''), pickTime = 201,
               author = Some ''dlpicker'', creationTime = 1000, methodID = ''DL'', manual = False\<rparr>"

definition ex_query :: query where
  "ex_query = \<lparr>getPicksInTimespan = (\<lambda>t1 t2. [Some ex_pick1]),
               getPicksOfOrigin = (\<lambda>oid. []),
               storedArrivals = (\<lambda>oid. [])\<rparr>"

text \<open>
  The scenario of manual precedence: the origin has a manual P arrival at station STA1
  (20 degrees, residual 0); the time span holds an automatic pick on the same stream and
  one on STA2.
\<close>

definition ex_pick2 :: pick where
  "ex_pick2 = \<lparr>publicID = ''p2'', waveformID = (''GE'', ''STA2'', [], ''BHZ''), pickTime = 301,
               author = Some ''dlpicker'', creationTime = 1001, methodID = ''DL'', manual = False\<rparr>"

definition ex_manual_pick :: pick where
  "ex_manual_pick = \<lparr>publicID = ''m1'', waveformID = (''GE'', ''STA1'', [], ''BHZ''), pickTime = 200,
               author = Some ''analyst'', creationTime = 900, methodID = [], manual = True\<rparr>"

definition ex_manual_arrival :: arrival where
  "ex_manual_arrival = \<lparr>pickID = ''m1'', phase = ''P'', timeUsed = Some True, weight = 1,
               distance = Some 20\<rparr>"

definition ex_query_manual :: query where
  "ex_query_manual = \<lparr>getPicksInTimespan = (\<lambda>t1 t2. [Some ex_pick1, Some ex_pick2]),
               getPicksOfOrigin = (\<lambda>oid. [Some ex_manual_pick]),
               storedArrivals = (\<lambda>oid. [ex_manual_arrival])\<rparr>"

definition ex_isManual :: "arrival \<Rightarrow> bool" where
  "ex_isManual a = (pickID a = ''m1'')"

text \<open>
  Three picks on one stream: A and B created at the same time, C a second earlier; and
  two queries that deliver A and B in opposite orders.
\<close>

definition ex_pickA :: pick where
  "ex_pickA = \<lparr>publicID = ''a'', waveformID = (''GE'', ''STA1'', [], ''BHZ''), pickTime = 201,
               author = Some ''dlpicker'', creationTime = 1000, methodID = ''DL'', manual = False\<rparr>"

definition ex_pickB :: pick where
  "ex_pickB = \<lparr>publicID = ''b'', waveformID = (''GE'', ''STA1'', [], ''BHZ''), pickTime = 202,
               author = Some ''dlpicker'', creationTime = 1000, methodID = ''DL'', manual = False\<rparr>"

definition ex_pickC :: pick where
  "ex_pickC = \<lparr>publicID = ''c'', waveformID = (''GE'', ''STA1'', [], ''BHZ''), pickTime = 199,
               author = Some ''dlpicker'', creationTime = 999, methodID = ''DL'', manual = False\<rparr>"

definition ex_query_ab :: query where
  "ex_query_ab = \<lparr>getPicksInTimespan = (\<lambda>t1 t2. [Some ex_pickA, Some ex_pickB]),
               getPicksOfOrigin = (\<lambda>oid. []),
               storedArrivals = (\<lambda>oid. [])\<rparr>"

definition ex_query_ba :: query where
  "ex_query_ba = \<lparr>getPicksInTimespan = (\<lambda>t1 t2. [Some ex_pickB, Some ex_pickA]),
               getPicksOfOrigin = (\<lambda>oid. []),
               storedArrivals = (\<lambda>oid. [])\<rparr>"

text \<open>
  Two origins with used arrivals at 35, 30 and 38 degrees (and an unused one at 80
  degrees), and at 42, 50 and 45 degrees.
\<close>

definition ex_arrival :: "string \<Rightarrow> real \<Rightarrow> real \<Rightarrow> arrival" where
  "ex_arrival pid wgt d =
     \<lparr>pickID = pid, phase = ''P'', timeUsed = Some True, weight = wgt, distance = Some d\<rparr>"

definition ex_origin_regional :: origin where
  "ex_origin_regional = ex_origin\<lparr>arrivals :=
     [ex_arrival ''r1'' 1 35, ex_arrival ''r2'' 1 30, ex_arrival ''r3'' 0.3 80, ex_arrival ''r4'' 1 38]\<rparr>"

definition ex_origin_tele :: origin where
  "ex_origin_tele = ex_origin\<lparr>arrivals :=
     [ex_arrival ''t1'' 1 42, ex_arrival ''t2'' 1 50, ex_arrival ''t3'' 1 45]\<rparr>"

text \<open>
  The first of them with one more used arrival, which has no distance; and an origin with
  used arrivals at 40, \<open>40 + 2 ^ (- 47)\<close> and 40 degrees.
\<close>

definition ex_origin_partial :: origin where
  "ex_origin_partial = ex_origin\<lparr>arrivals :=
     [ex_arrival ''r1'' 1 35, ex_arrival ''r2'' 1 30, ex_arrival ''r3'' 0.3 80,
      (ex_arrival ''r5'' 1 0)\<lparr>distance := None\<rparr>, ex_arrival ''r4'' 1 38]\<rparr>"

definition ex_origin_forty :: origin where
  "ex_origin_forty = ex_origin\<lparr>arrivals :=
     [ex_arrival ''f1'' 1 40, ex_arrival ''f2'' 1 (40 + 1 / 2 ^ 47), ex_arrival ''f3'' 1 40]\<rparr>"

text \<open>
  The client: an automatic pick of another module on STA1, the configuration, a world
  whose database associates that pick with every origin and whose record stream is empty,
  and a workspace.
\<close>

definition ex_pick_sc :: pick where
  "ex_pick_sc = \<lparr>publicID = ''s1'', waveformID = (''GE'', ''STA1'', [], ''BHZ''), pickTime = 200,
               author = Some ''scautopick'', creationTime = 800, methodID = [], manual = False\<rparr>"

definition ex_app :: app_config where
  "ex_app = \<lparr>self_ignoredAgencyIDs = [], self_emptyOriginAgencyIDs = [], self_author = ''dlpicker'',
             repickManualPicks = False, tryUpickedStations = True, beforeP = 60, afterP = 120,
             configuredStreams = [(''GE'', ''STA1'', ''--'', ''BH'')],
             components = [(''GE'', ''STA1'', ''--'', ''BH'') \<mapsto> [''Z'', ''N'', ''E'']]\<rparr>"

definition ex_world :: world where
  "ex_world = \<lparr>seiscomp = ex_lib,
               database = \<lparr>getPicksInTimespan = (\<lambda>t1 t2. []),
                            getPicksOfOrigin = (\<lambda>oid. [Some ex_pick_sc]),
                            storedArrivals = (\<lambda>oid. [])\<rparr>,
               inventoryStreams = [],
               pickFind = (\<lambda>pid. False),
               timestamp = (\<lambda>t. ''T''),
               mseedExists = (\<lambda>eid key. False),
               recordStream = (\<lambda>added. []),
               prepare = (\<lambda>recs. recs),
               dump = (\<lambda>ws. None)\<rparr>"

definition ex_workspace :: workspace where
  "ex_workspace = \<lparr>ws_origin = None, all_picks = [], new_picks = [], attempted_picks = [],
                   mlpicks = [], waveforms = []\<rparr>"

definition ex_ws_attempted :: workspace where
  "ex_ws_attempted = ex_workspace\<lparr>all_picks := [(''s1'', ex_pick_sc)],
                                   attempted_picks := [(''s1'', ex_pick_sc)]\<rparr>"

definition ex_pass :: pass where
  "ex_pass = \<lparr>pass_world = ex_world, pass_origin = ex_origin_regional, pass_event = ''ev1''\<rparr>"

definition ex_ws_repicked :: workspace where
  "ex_ws_repicked = ex_workspace\<lparr>mlpicks := [(''s1'', ex_pick1)]\<rparr>"

text \<open>
  Two records of one stream with a gap of 1.01 s between them, two with a gap of 0.99 s,
  and the worlds whose record stream delivers them.
\<close>

definition ex_rec1 :: wrecord where
  "ex_rec1 = \<lparr>networkCode = ''GE'', stationCode = ''STA1'', locationCode = [],
               channelCode = ''BHZ'', streamID = ''GE.STA1..BHZ'', startTime = 140, endTime = 200\<rparr>"

definition ex_rec2 :: wrecord where
  "ex_rec2 = \<lparr>networkCode = ''GE'', stationCode = ''STA1'', locationCode = [],
               channelCode = ''BHZ'', streamID = ''GE.STA1..BHZ'', startTime = 201.01, endTime = 320\<rparr>"

definition ex_rec3 :: wrecord where
  "ex_rec3 = \<lparr>networkCode = ''GE'', stationCode = ''STA1'', locationCode = [],
               channelCode = ''BHZ'', streamID = ''GE.STA1..BHZ'', startTime = 200.99, endTime = 320\<rparr>"

definition ex_world_gappy :: world where
  "ex_world_gappy = ex_world\<lparr>recordStream := (\<lambda>added. [Some ex_rec1, Some ex_rec2, None])\<rparr>"

definition ex_world_contiguous :: world where
  "ex_world_contiguous = ex_world\<lparr>recordStream := (\<lambda>added. [Some ex_rec1, Some ex_rec3, None])\<rparr>"

text \<open>
  A station at 102 degrees, beyond the toy travel time table, listed before a station
  within the table: in the inventory of the client and of the database, with a pick on
  each.
\<close>

definition ex_world_far :: world where
  "ex_world_far = ex_world\<lparr>inventoryStreams :=
     [(''GE'', ''STA9'', [], ''BHZ'', 0, 102), (''GE'', ''STA2'', [], ''BHZ'', 0, 30)]\<rparr>"

definition ex_app_far :: app_config where
  "ex_app_far = ex_app\<lparr>configuredStreams :=
     [(''GE'', ''STA9'', ''--'', ''BH''), (''GE'', ''STA2'', ''--'', ''BH'')]\<rparr>"

definition ex_inventory_far :: inventory where
  "ex_inventory_far = (\<lambda>t. [(''GE'', ''STA9'') \<mapsto> (0, 102), (''GE'', ''STA1'') \<mapsto> (0, 20)])"

definition ex_pick9 :: pick where
  "ex_pick9 = \<lparr>publicID = ''p9'', waveformID = (''GE'', ''STA9'', [], ''BHZ''), pickTime = 1000,
               author = Some ''dlpicker'', creationTime = 1002, methodID = ''DL'', manual = False\<rparr>"

definition ex_query_far :: query where
  "ex_query_far = \<lparr>getPicksInTimespan = (\<lambda>t1 t2. [Some ex_pick9, Some ex_pick1]),
               getPicksOfOrigin = (\<lambda>oid. []),
               storedArrivals = (\<lambda>oid. [])\<rparr>"

text \<open>A run for the event \<open>ev1\<close>, with every attribute the method reads set beforehand.\<close>

definition ex_cmdline :: cmdline where
  "ex_cmdline = \<lparr>optionString = [''event'' \<mapsto> ''ev1''], optionDouble = Map.empty,
                 hasOption = (\<lambda>n. n = ''event'')\<rparr>"

definition ex_self :: attributes where
  "ex_self = [''inventory'' \<mapsto> PyObject, ''allowedAuthorIDs'' \<mapsto> PyStrs [''dlpicker''],
              ''maxDelta'' \<mapsto> PyFloat 105, ''minimumDepth'' \<mapsto> PyFloat 10,
              ''maxResidual'' \<mapsto> PyFloat 3]"

text \<open>
  A workspace in which \<open>s1\<close> is both new and attempted, as a pass leaves it, and a
  pass for an origin without arrivals, which \<open>processOrigin\<close> skips.
\<close>

definition ex_ws_both :: workspace where
  "ex_ws_both = ex_workspace\<lparr>all_picks := [(''s1'', ex_pick_sc)],
                              new_picks := [(''s1'', ex_pick_sc)],
                              attempted_picks := [(''s1'', ex_pick_sc)]\<rparr>"

definition ex_pass_empty :: pass where
  "ex_pass_empty = \<lparr>pass_world = ex_world, pass_origin = ex_origin, pass_event = ''ev1''\<rparr>"

section \<open>Loops and dictionaries\<close>

lemma set_update_cases:
  "x \<in> set (AList.update k v al) \<Longrightarrow> x = (k, v) \<or> x \<in> set al"
  by (induction al) (auto split: if_splits)

lemma for_each_invariant:
  assumes "P s"
    and "\<And>x s s' e. x \<in> set xs \<Longrightarrow> P s \<Longrightarrow> body x s = (s', e) \<Longrightarrow> P s'"
  shows "P (fst (for_each body xs s))"
  using assms
proof (induction xs arbitrary: s)
  case Nil
  then show ?case by simp
next
  case (Cons x xs)
  obtain s' e where b: "body x s = (s', e)" by (cases "body x s")
  have "P s'" using Cons.prems(2) [of x s s' e] Cons.prems(1) b by simp
  show ?case
  proof (cases e)
    case None
    have "P (fst (for_each body xs s'))"
      by (rule Cons.IH [OF \<open>P s'\<close>]) (rule Cons.prems(2), auto)
    then show ?thesis
      using b None by simp
  next
    case (Some err)
    then show ?thesis using b \<open>P s'\<close> by simp
  qed
qed

lemma set_update_keep:
  "(k, v) \<in> set al \<Longrightarrow> k' \<noteq> k \<Longrightarrow> (k, v) \<in> set (AList.update k' v' al)"
  by (induction al) auto

lemma set_update_new: "(k, v) \<in> set (AList.update k v al)"
  by (induction al) auto

lemma collect_body_cases:
  assumes "collect_body lib h station maxDelta maxResidual (pid, p) acc = (acc', e)"
  shows "(acc' = acc \<and> \<not> passes4 lib h station maxDelta maxResidual p)
       \<or> (acc' = AList.update pid p acc \<and> passes4 lib h station maxDelta maxResidual p \<and> e = None)"
  using assms
  by (auto simp: collect_body_def passes4_def split: prediction.splits if_splits)

lemma collect_sound:
  assumes "for_each (collect_body lib h station maxDelta maxResidual) picks [] = (poi, e)"
    and "x \<in> set poi"
  shows "x \<in> set picks \<and> passes4 lib h station maxDelta maxResidual (snd x)"
proof -
  let ?P = "\<lambda>acc. \<forall>x\<in>set acc. x \<in> set picks \<and> passes4 lib h station maxDelta maxResidual (snd x)"
  have "?P (fst (for_each (collect_body lib h station maxDelta maxResidual) picks []))"
  proof (rule for_each_invariant)
    show "?P []" by simp
  next
    fix x s s' e
    assume x: "x \<in> set picks" and s: "?P s"
      and b: "collect_body lib h station maxDelta maxResidual x s = (s', e)"
    obtain pid p where xp: "x = (pid, p)" by (cases x)
    from collect_body_cases [OF b [unfolded xp]] show "?P s'"
    proof
      assume "s' = s \<and> \<not> passes4 lib h station maxDelta maxResidual p"
      then show ?thesis using s by simp
    next
      assume a: "s' = AList.update pid p s \<and> passes4 lib h station maxDelta maxResidual p \<and> e = None"
      show ?thesis
      proof
        fix y assume "y \<in> set s'"
        then have "y = (pid, p) \<or> y \<in> set s" using a set_update_cases by metis
        then show "y \<in> set picks \<and> passes4 lib h station maxDelta maxResidual (snd y)"
          using a s x xp by auto
      qed
    qed
  qed
  then show ?thesis using assms by simp
qed

lemma collect_complete:
  assumes "for_each (collect_body lib h station maxDelta maxResidual) picks acc = (poi, None)"
    and "distinct (map fst picks)"
  shows "(\<forall>x\<in>set picks. passes4 lib h station maxDelta maxResidual (snd x) \<longrightarrow> x \<in> set poi)
       \<and> (\<forall>x\<in>set acc. fst x \<notin> fst ` set picks \<longrightarrow> x \<in> set poi)"
  using assms
proof (induction picks arbitrary: acc)
  case Nil
  then show ?case by simp
next
  case (Cons x picks)
  obtain pid p where xp: "x = (pid, p)" by (cases x)
  obtain acc' e where b: "collect_body lib h station maxDelta maxResidual (pid, p) acc = (acc', e)"
    by (cases "collect_body lib h station maxDelta maxResidual (pid, p) acc")
  have e: "e = None" and rest: "for_each (collect_body lib h station maxDelta maxResidual) picks acc' = (poi, None)"
    using Cons.prems(1) b xp by (auto split: option.splits)
  have d: "distinct (map fst picks)" and nk: "pid \<notin> fst ` set picks"
    using Cons.prems(2) xp by auto
  note IH = Cons.IH [OF rest d]
  from collect_body_cases [OF b] show ?case
  proof
    assume a: "acc' = acc \<and> \<not> passes4 lib h station maxDelta maxResidual p"
    then show ?thesis using IH xp by auto
  next
    assume a: "acc' = AList.update pid p acc \<and> passes4 lib h station maxDelta maxResidual p \<and> e = None"
    have 1: "(pid, p) \<in> set poi"
      using IH a nk set_update_new [of pid p acc] by auto
    have 2: "\<forall>y\<in>set acc. fst y \<notin> fst ` set (x # picks) \<longrightarrow> y \<in> set poi"
    proof (intro ballI impI)
      fix y assume y: "y \<in> set acc" "fst y \<notin> fst ` set (x # picks)"
      then have "fst y \<noteq> pid" using xp by auto
      then have "y \<in> set acc'"
        using a y(1) set_update_keep [of "fst y" "snd y" acc pid p] by simp
      then show "y \<in> set poi" using IH y(2) by auto
    qed
    show ?thesis using 1 2 IH xp by auto
  qed
qed

lemma distinct_loadPicksForTimespan_aux:
  "distinct (map fst acc) \<Longrightarrow>
   distinct (map fst (fold (\<lambda>obj objects.
             case obj of
               None \<Rightarrow> objects
             | Some p \<Rightarrow>
                 if authorOf p \<notin> Some ` set allowedAuthorIDs then objects
                 else AList.update (publicID p) p objects) objs acc))"
  by (induction objs arbitrary: acc) (auto simp: distinct_update split: option.splits)

lemma distinct_loadPicksForTimespan:
  "distinct (map fst (loadPicksForTimespan q t1 t2 allowed))"
  unfolding loadPicksForTimespan_def by (rule distinct_loadPicksForTimespan_aux) simp

lemma associate_body_cases:
  assumes "associate_body lib h station maxDelta maxResidual (Some spl) (k, ps) (org, picks) = (st', e)"
  shows "st' = (org, picks)
       \<or> (\<exists>p ps' delta dt. ps = p # ps' \<and> (waveformID p, ''P'') \<notin> set spl
            \<and> predict lib h station maxDelta k p = Predicted delta dt
            \<and> - 2 * maxResidual < dt \<and> dt < 2 * maxResidual
            \<and> st' = (org\<lparr>arrivals := arrivals org @ [new_arrival p delta maxDelta]\<rparr>, picks @ [p])
            \<and> e = None)"
  using assms
  by (auto simp: associate_body_def split: list.splits prediction.splits if_splits)

lemma associate_appended:
  assumes "for_each (associate_body lib h station maxDelta maxResidual (Some spl)) groups (org, picks)
           = ((org', picks'), e)"
  shows "\<exists>new. arrivals org' = arrivals org @ new
           \<and> (\<forall>a\<in>set new. accepted lib h station maxDelta maxResidual spl groups a)"
proof -
  let ?P = "\<lambda>st. \<exists>new. arrivals (fst st) = arrivals org @ new
              \<and> (\<forall>a\<in>set new. accepted lib h station maxDelta maxResidual spl groups a)"
  have "?P (fst (for_each (associate_body lib h station maxDelta maxResidual (Some spl)) groups (org, picks)))"
  proof (rule for_each_invariant)
    show "?P (org, picks)" by simp
  next
    fix g st st' e
    assume g: "g \<in> set groups" and st: "?P st"
      and b: "associate_body lib h station maxDelta maxResidual (Some spl) g st = (st', e)"
    obtain k ps where gk: "g = (k, ps)" by (cases g)
    obtain o1 p1 where s1: "st = (o1, p1)" by (cases st)
    from st s1 obtain new where new: "arrivals o1 = arrivals org @ new"
      "\<forall>a\<in>set new. accepted lib h station maxDelta maxResidual spl groups a" by auto
    from associate_body_cases [OF b [unfolded gk s1]] show "?P st'"
    proof
      assume "st' = (o1, p1)"
      then show ?thesis using st s1 by simp
    next
      assume "\<exists>p ps' delta dt. ps = p # ps' \<and> (waveformID p, ''P'') \<notin> set spl
            \<and> predict lib h station maxDelta k p = Predicted delta dt
            \<and> - 2 * maxResidual < dt \<and> dt < 2 * maxResidual
            \<and> st' = (o1\<lparr>arrivals := arrivals o1 @ [new_arrival p delta maxDelta]\<rparr>, p1 @ [p])
            \<and> e = None"
      then obtain p ps' delta dt where a: "ps = p # ps'" "(waveformID p, ''P'') \<notin> set spl"
        "predict lib h station maxDelta k p = Predicted delta dt"
        "- 2 * maxResidual < dt" "dt < 2 * maxResidual"
        "st' = (o1\<lparr>arrivals := arrivals o1 @ [new_arrival p delta maxDelta]\<rparr>, p1 @ [p])"
        by blast
      have "accepted lib h station maxDelta maxResidual spl groups (new_arrival p delta maxDelta)"
        unfolding accepted_def using a g gk by blast
      then have "arrivals (fst st') = arrivals org @ (new @ [new_arrival p delta maxDelta])
        \<and> (\<forall>a\<in>set (new @ [new_arrival p delta maxDelta]).
              accepted lib h station maxDelta maxResidual spl groups a)"
        using a(6) new by simp
      then show ?thesis by blast
    qed
  qed
  then show ?thesis using assms by simp
qed

lemma manual_body_step:
  "manual_body associated_picks a (m, l) =
     (case map_of associated_picks (pickID a) of
        None \<Rightarrow> ((m, l), Some KeyError)
      | Some p \<Rightarrow> ((AList.update (pickID a) p m, l @ [(waveformID p, phase a)]), None))"
  by (simp add: manual_body_def)

lemma manual_loop_complete:
  assumes "for_each (manual_body associated_picks) arrs (mp0, spl0) = ((mp, spl), None)"
  shows "set spl0 \<subseteq> set spl
       \<and> (\<forall>a\<in>set arrs. \<forall>p. map_of associated_picks (pickID a) = Some p
             \<longrightarrow> (waveformID p, phase a) \<in> set spl)"
  using assms
proof (induction arrs arbitrary: mp0 spl0)
  case Nil
  then show ?case by simp
next
  case (Cons a arrs)
  show ?case
  proof (cases "map_of associated_picks (pickID a)")
    case None
    then show ?thesis using Cons.prems by (simp add: manual_body_step)
  next
    case (Some p)
    then have "for_each (manual_body associated_picks) arrs
                 (AList.update (pickID a) p mp0, spl0 @ [(waveformID p, phase a)]) = ((mp, spl), None)"
      using Cons.prems by (simp add: manual_body_step)
    from Cons.IH [OF this]
    have 1: "set (spl0 @ [(waveformID p, phase a)]) \<subseteq> set spl"
      and 2: "\<forall>a\<in>set arrs. \<forall>p. map_of associated_picks (pickID a) = Some p
             \<longrightarrow> (waveformID p, phase a) \<in> set spl" by simp_all
    from 1 have "set spl0 \<subseteq> set spl" and "(waveformID p, phase a) \<in> set spl" by simp_all
    then show ?thesis using 2 Some by simp
  qed
qed

lemma loadPicksForOrigin_True:
  assumes cand: "candidates lib org inventory allowed maxDelta maxResidual q = (poi, None)"
    and run: "loadPicksForOrigin lib isManual org inventory allowed maxDelta maxResidual q True = (org', out)"
  shows "\<exists>new. arrivals org' = manual_arrivals q isManual org @ new
           \<and> (\<forall>a\<in>set new. \<exists>spl.
                  accepted lib (hypocentre_of org) (getStations inventory (otime org))
                    maxDelta maxResidual spl (sort_groups (group_picks poi)) a
                \<and> (\<forall>ma\<in>set (manual_arrivals q isManual org). \<forall>mp.
                      map_of (associated_picks_of q org) (pickID ma) = Some mp
                      \<longrightarrow> (waveformID mp, phase ma) \<in> set spl))"
proof -
  let ?h = "hypocentre_of org"
  let ?st = "getStations inventory (otime org)"
  let ?org2 = "clearAutomaticArrivals isManual (loadArrivals q (clearAllArrivals org))"
  have et: "etime ?h = otime org" by (simp add: hypocentre_of_def)
  have a2: "arrivals ?org2 = manual_arrivals q isManual org"
    by (simp add: clearAutomaticArrivals_def loadArrivals_def clearAllArrivals_def manual_arrivals_def)
  have ap: "associated_picks_of q (loadArrivals q (clearAllArrivals org)) = associated_picks_of q org"
    by (simp add: associated_picks_of_def loadArrivals_def clearAllArrivals_def)
  obtain mp spl e1 where m: "for_each (manual_body (associated_picks_of q org))
       (manual_arrivals q isManual org) ([], []) = ((mp, spl), e1)"
    by (metis surj_pair)
  show ?thesis
  proof (cases e1)
    case (Some err)
    then have "org' = ?org2"
      using run cand m by (simp add: loadPicksForOrigin_def Let_def et a2 ap)
    then have "arrivals org' = manual_arrivals q isManual org @ []" using a2 by simp
    then show ?thesis by (metis empty_iff empty_set)
  next
    case None
    obtain o3 p3 e3 where l: "for_each (associate_body lib ?h ?st maxDelta maxResidual (Some spl))
        (sort_groups (group_picks poi)) (?org2, map snd mp) = ((o3, p3), e3)"
      by (metis surj_pair)
    have "org' = o3"
      using run cand m None l by (cases e3) (simp_all add: loadPicksForOrigin_def Let_def et a2 ap)
    with associate_appended [OF l] a2 obtain new where
      n: "arrivals org' = manual_arrivals q isManual org @ new"
         "\<forall>a\<in>set new. accepted lib ?h ?st maxDelta maxResidual spl (sort_groups (group_picks poi)) a"
      by auto
    have "\<forall>ma\<in>set (manual_arrivals q isManual org). \<forall>mp.
                  map_of (associated_picks_of q org) (pickID ma) = Some mp
                  \<longrightarrow> (waveformID mp, phase ma) \<in> set spl"
      using manual_loop_complete [OF m [unfolded None]] by simp
    with n show ?thesis by blast
  qed
qed

lemma update_keys_publicID:
  assumes "\<forall>x\<in>set acc. fst x = publicID (snd x)"
  shows "\<forall>x\<in>set (AList.update (publicID p) p acc). fst x = publicID (snd x)"
proof
  fix x assume "x \<in> set (AList.update (publicID p) p acc)"
  then have "x = (publicID p, p) \<or> x \<in> set acc" by (rule set_update_cases)
  then show "fst x = publicID (snd x)" using assms by auto
qed

lemma loadPicksForTimespan_keys_aux:
  "\<forall>x\<in>set acc. fst x = publicID (snd x) \<Longrightarrow>
   \<forall>x\<in>set (fold (\<lambda>obj objects.
             case obj of
               None \<Rightarrow> objects
             | Some p \<Rightarrow>
                 if authorOf p \<notin> Some ` set allowedAuthorIDs then objects
                 else AList.update (publicID p) p objects) objs acc). fst x = publicID (snd x)"
proof (induction objs arbitrary: acc)
  case Nil
  then show ?case by simp
next
  case (Cons obj objs)
  show ?case
  proof (cases obj)
    case None
    then show ?thesis using Cons by simp
  next
    case (Some p)
    show ?thesis
      using Some Cons.IH [OF Cons.prems] Cons.IH [OF update_keys_publicID [OF Cons.prems, of p]]
      by simp
  qed
qed

lemma loadPicksForTimespan_keys:
  "x \<in> set (loadPicksForTimespan q t1 t2 allowed) \<Longrightarrow> fst x = publicID (snd x)"
  using loadPicksForTimespan_keys_aux [of "[]" allowed "getPicksInTimespan q t1 t2"]
  by (simp add: loadPicksForTimespan_def)

lemma collect_distinct:
  assumes "for_each (collect_body lib h station maxDelta maxResidual) picks [] = (poi, e)"
  shows "distinct (map fst poi)"
proof -
  have "distinct (map fst (fst (for_each (collect_body lib h station maxDelta maxResidual) picks [])))"
  proof (rule for_each_invariant [where P = "\<lambda>acc. distinct (map fst acc)"])
    show "distinct (map fst [])" by simp
  next
    fix x s s' e
    assume s: "distinct (map fst s)"
      and b: "collect_body lib h station maxDelta maxResidual x s = (s', e)"
    obtain pid p where xp: "x = (pid, p)" by (cases x)
    from collect_body_cases [OF b [unfolded xp]] s show "distinct (map fst s')"
      by (auto simp: distinct_update)
  qed
  then show ?thesis using assms by simp
qed

lemma candidates_lookup:
  assumes cand: "candidates lib org inventory allowed maxDelta maxResidual q = (poi, e)"
    and p: "p \<in> snd ` set poi"
  shows "map_of poi (publicID p) = Some p"
proof -
  let ?picks = "loadPicksForTimespan q (otime org) (otime org + 1200) allowed"
  have fe: "for_each (collect_body lib (hypocentre_of org) (getStations inventory (etime (hypocentre_of org)))
        maxDelta maxResidual) ?picks [] = (poi, e)"
    using cand by (simp add: candidates_def Let_def)
  from p obtain pid where pp: "(pid, p) \<in> set poi" by auto
  then have "(pid, p) \<in> set ?picks" using collect_sound [OF fe] by blast
  then have "pid = publicID p" using loadPicksForTimespan_keys by fastforce
  then show ?thesis using pp collect_distinct [OF fe] by simp
qed

section \<open>Channel groups are never empty\<close>

lemma group_body_nonempty:
  assumes "[] \<notin> snd ` set acc"
  shows "[] \<notin> snd ` set (group_body kp acc)"
proof
  assume "[] \<in> snd ` set (group_body kp acc)"
  then obtain k where "(k, []) \<in> set (group_body kp acc)" by auto
  then have "(k, []) \<in> set acc"
    by (auto simp: group_body_def split: prod.splits option.splits dest!: set_update_cases)
  with assms show False by force
qed

lemma fold_group_body_nonempty:
  "[] \<notin> snd ` set acc \<Longrightarrow> [] \<notin> snd ` set (fold group_body picks acc)"
  by (induction picks arbitrary: acc) (simp_all add: group_body_nonempty)

lemma group_picks_nonempty: "(k, ps) \<in> set (group_picks picks) \<Longrightarrow> ps \<noteq> []"
  using fold_group_body_nonempty [of "[]" picks] by (force simp: group_picks_def)

lemma sort_key_Nil_iff: "sort_key f xs = [] \<longleftrightarrow> xs = []"
  by (metis length_0_conv length_sort)

lemma sort_groups_nonempty: "(k, ps) \<in> set (sort_groups (group_picks picks)) \<Longrightarrow> ps \<noteq> []"
  by (auto simp: sort_groups_def sort_key_Nil_iff dest: group_picks_nonempty)

section \<open>The group of a stream\<close>

text \<open>The group of a stream is the list of its candidates, in the order of the dictionary.\<close>

lemma group_body_lookup:
  "map_of (group_body (pid, p) acc) k =
     (if nslc p = k then
        (case map_of acc k of None \<Rightarrow> Some [p] | Some l \<Rightarrow> Some (l @ [p]))
      else map_of acc k)"
  by (simp add: group_body_def update_conv' split: option.splits)

lemma fold_group_body_lookup:
  "map_of (fold group_body xs acc) k =
     (case map_of acc k of
        None \<Rightarrow> (if filter (\<lambda>p. nslc p = k) (map snd xs) = [] then None
                 else Some (filter (\<lambda>p. nslc p = k) (map snd xs)))
      | Some l \<Rightarrow> Some (l @ filter (\<lambda>p. nslc p = k) (map snd xs)))"
proof (induction xs arbitrary: acc)
  case Nil
  then show ?case by (simp split: option.splits)
next
  case (Cons x xs)
  obtain pid p where xp: "x = (pid, p)" by (cases x)
  have "map_of (fold group_body (x # xs) acc) k = map_of (fold group_body xs (group_body (pid, p) acc)) k"
    by (simp add: xp)
  also have "\<dots> = (case map_of (group_body (pid, p) acc) k of
        None \<Rightarrow> (if filter (\<lambda>p. nslc p = k) (map snd xs) = [] then None
                 else Some (filter (\<lambda>p. nslc p = k) (map snd xs)))
      | Some l \<Rightarrow> Some (l @ filter (\<lambda>p. nslc p = k) (map snd xs)))"
    by (rule Cons.IH)
  also have "\<dots> = (case map_of acc k of
        None \<Rightarrow> (if filter (\<lambda>p. nslc p = k) (map snd (x # xs)) = [] then None
                 else Some (filter (\<lambda>p. nslc p = k) (map snd (x # xs))))
      | Some l \<Rightarrow> Some (l @ filter (\<lambda>p. nslc p = k) (map snd (x # xs))))"
    by (cases "map_of acc k") (simp_all add: group_body_lookup xp)
  finally show ?case .
qed

lemma group_picks_lookup:
  "map_of (group_picks picks) k =
     (if filter (\<lambda>p. nslc p = k) (map snd picks) = [] then None
      else Some (filter (\<lambda>p. nslc p = k) (map snd picks)))"
  by (simp add: group_picks_def fold_group_body_lookup)

lemma distinct_group_body:
  "distinct (map fst acc) \<Longrightarrow> distinct (map fst (group_body kp acc))"
  by (cases kp) (simp add: group_body_def distinct_update split: option.splits)

lemma distinct_fold_group_body:
  "distinct (map fst acc) \<Longrightarrow> distinct (map fst (fold group_body xs acc))"
  by (induction xs arbitrary: acc) (simp_all add: distinct_group_body)

lemma distinct_group_picks: "distinct (map fst (group_picks picks))"
  by (simp add: group_picks_def distinct_fold_group_body)

lemma map_fst_sort_groups: "map fst (sort_groups gs) = map fst gs"
  by (induction gs) (auto simp: sort_groups_def)

lemma sort_groups_lookup:
  "map_of (sort_groups gs) k = map_option (sort_key creationTime) (map_of gs k)"
  by (induction gs) (auto simp: sort_groups_def)

lemma distinct_sort_groups: "distinct (map fst (sort_groups (group_picks picks)))"
  by (simp only: map_fst_sort_groups distinct_group_picks)

lemma sort_groups_member:
  "(k, ps) \<in> set (sort_groups (group_picks picks)) \<longleftrightarrow>
     filter (\<lambda>p. nslc p = k) (map snd picks) \<noteq> []
     \<and> ps = sort_key creationTime (filter (\<lambda>p. nslc p = k) (map snd picks))"
proof -
  have "(k, ps) \<in> set (sort_groups (group_picks picks)) \<longleftrightarrow>
        map_of (sort_groups (group_picks picks)) k = Some ps"
    using map_of_eq_Some_iff [OF distinct_sort_groups [of picks]] by blast
  also have "\<dots> \<longleftrightarrow> map_option (sort_key creationTime) (map_of (group_picks picks) k) = Some ps"
    by (simp only: sort_groups_lookup)
  also have "\<dots> \<longleftrightarrow> filter (\<lambda>p. nslc p = k) (map snd picks) \<noteq> []
     \<and> ps = sort_key creationTime (filter (\<lambda>p. nslc p = k) (map snd picks))"
    unfolding group_picks_lookup
    by (cases "filter (\<lambda>p. nslc p = k) (map snd picks) = []") (simp_all add: eq_commute)
  finally show ?thesis .
qed

lemma group_members:
  assumes "(k, ps) \<in> set (sort_groups (group_picks picks))"
  shows "set ps = {p \<in> snd ` set picks. nslc p = k}" and "ps \<noteq> []"
proof -
  from assms have f: "filter (\<lambda>p. nslc p = k) (map snd picks) \<noteq> []"
    and ps: "ps = sort_key creationTime (filter (\<lambda>p. nslc p = k) (map snd picks))"
    by (simp_all add: sort_groups_member)
  show "set ps = {p \<in> snd ` set picks. nslc p = k}" unfolding ps by auto
  show "ps \<noteq> []" using f unfolding ps by (simp add: sort_key_Nil_iff)
qed

text \<open>The head of a list sorted by a key has the least key.\<close>

lemma sort_key_head_least:
  assumes "sort_key f xs = y # ys" and "x \<in> set xs"
  shows "f y \<le> f x"
proof -
  have "sorted (map f (y # ys))" using assms(1) sorted_sort_key [of f xs] by simp
  moreover have "x \<in> set (y # ys)" using assms by (metis set_sort)
  ultimately show ?thesis by auto
qed

lemma candidates_for_each:
  assumes "candidates lib org inventory allowed maxDelta maxResidual q = (poi, e)"
  shows "for_each (collect_body lib (hypocentre_of org) (getStations inventory (otime org))
           maxDelta maxResidual)
           (loadPicksForTimespan q (otime org) (otime org + 1200) allowed) [] = (poi, e)"
  using assms by (simp add: candidates_def Let_def hypocentre_of_def)

text \<open>
  The candidates keep the order of delivery: when the picks delivered have distinct public
  IDs, \<open>picks_of_interest\<close> holds, in that order, those of an allowed author that pass
  the first loop.
\<close>

lemma update_new_key: "k \<notin> fst ` set al \<Longrightarrow> AList.update k v al = al @ [(k, v)]"
  by (induction al) auto

lemma collect_in_order:
  assumes "for_each (collect_body lib h station maxDelta maxResidual) picks acc = (poi, None)"
    and "distinct (map fst (acc @ picks))"
  shows "poi = acc @ filter (\<lambda>x. passes4 lib h station maxDelta maxResidual (snd x)) picks"
  using assms
proof (induction picks arbitrary: acc)
  case Nil
  then show ?case by simp
next
  case (Cons x picks)
  obtain pid p where xp: "x = (pid, p)" by (cases x)
  obtain acc' e where b: "collect_body lib h station maxDelta maxResidual (pid, p) acc = (acc', e)"
    by (cases "collect_body lib h station maxDelta maxResidual (pid, p) acc")
  have e: "e = None" and rest: "for_each (collect_body lib h station maxDelta maxResidual) picks acc' = (poi, None)"
    using Cons.prems(1) b xp by (auto split: option.splits)
  have nk: "pid \<notin> fst ` set acc" using Cons.prems(2) xp by auto
  from collect_body_cases [OF b] show ?case
  proof
    assume a: "acc' = acc \<and> \<not> passes4 lib h station maxDelta maxResidual p"
    have "distinct (map fst (acc' @ picks))" using a Cons.prems(2) by auto
    from Cons.IH [OF rest this] show ?thesis using a xp by simp
  next
    assume a: "acc' = AList.update pid p acc \<and> passes4 lib h station maxDelta maxResidual p \<and> e = None"
    then have acc': "acc' = acc @ [(pid, p)]" using update_new_key [OF nk] by simp
    have "distinct (map fst (acc' @ picks))" using acc' Cons.prems(2) xp by auto
    from Cons.IH [OF rest this] show ?thesis using a acc' xp by simp
  qed
qed

lemma loadPicks_in_order_aux:
  assumes "distinct (map fst acc @ map publicID (concat (map (\<lambda>obj. case obj of None \<Rightarrow> [] | Some p \<Rightarrow> [p]) objs)))"
  shows "fold (\<lambda>obj objects.
             case obj of
               None \<Rightarrow> objects
             | Some p \<Rightarrow>
                 if authorOf p \<notin> Some ` set allowedAuthorIDs then objects
                 else AList.update (publicID p) p objects) objs acc
         = acc @ map (\<lambda>p. (publicID p, p))
                  (filter (\<lambda>p. authorOf p \<in> Some ` set allowedAuthorIDs)
                     (concat (map (\<lambda>obj. case obj of None \<Rightarrow> [] | Some p \<Rightarrow> [p]) objs)))"
  using assms
proof (induction objs arbitrary: acc)
  case Nil
  then show ?case by simp
next
  case (Cons obj objs)
  show ?case
  proof (cases obj)
    case None
    then show ?thesis using Cons by simp
  next
    case (Some p)
    have nk: "publicID p \<notin> fst ` set acc" using Cons.prems Some by auto
    have d1: "distinct (map fst acc @ map publicID (concat (map (\<lambda>obj. case obj of None \<Rightarrow> [] | Some p \<Rightarrow> [p]) objs)))"
      using Cons.prems Some by auto
    have d2: "distinct (map fst (acc @ [(publicID p, p)]) @ map publicID (concat (map (\<lambda>obj. case obj of None \<Rightarrow> [] | Some p \<Rightarrow> [p]) objs)))"
      using Cons.prems Some by auto
    show ?thesis
      using Some Cons.IH [OF d1] Cons.IH [OF d2] update_new_key [OF nk, of p]
      by simp
  qed
qed

lemma candidates_in_delivery_order:
  assumes cand: "candidates lib org inventory allowed maxDelta maxResidual q = (poi, None)"
    and ids: "distinct (map publicID (delivered q (otime org) (otime org + 1200)))"
  shows "map snd poi
         = filter (\<lambda>p. authorOf p \<in> Some ` set allowed
                      \<and> passes4 lib (hypocentre_of org) (getStations inventory (otime org))
                            maxDelta maxResidual p)
                  (delivered q (otime org) (otime org + 1200))"
proof -
  let ?del = "delivered q (otime org) (otime org + 1200)"
  let ?picks = "loadPicksForTimespan q (otime org) (otime org + 1200) allowed"
  have l: "?picks = map (\<lambda>p. (publicID p, p)) (filter (\<lambda>p. authorOf p \<in> Some ` set allowed) ?del)"
    using loadPicks_in_order_aux [of "[]" "getPicksInTimespan q (otime org) (otime org + 1200)" allowed]
      ids
    by (simp add: loadPicksForTimespan_def delivered_def)
  have d: "distinct (map fst ([] @ ?picks))"
    using distinct_loadPicksForTimespan by simp
  have "poi = [] @ filter (\<lambda>x. passes4 lib (hypocentre_of org) (getStations inventory (otime org))
                              maxDelta maxResidual (snd x)) ?picks"
    by (rule collect_in_order [OF candidates_for_each [OF cand] d])
  then show ?thesis
    unfolding l by (simp add: filter_map comp_def)
qed

text \<open>
  The sort is stable: the head of the sorted list is the first element of the list, as it
  was, that has the least key.
\<close>

lemma sort_key_head_first:
  assumes s: "sort_key f (filter P zs) = y # ys"
  shows "\<exists>before after. zs = before @ y # after
           \<and> (\<forall>q\<in>set before. P q \<longrightarrow> f y < f q)"
proof -
  have "filter (\<lambda>x. f x = f y) (filter P zs) = filter (\<lambda>x. f x = f y) (sort_key f (filter P zs))"
    by (rule sort_key_stable [symmetric])
  also have "\<dots> = y # filter (\<lambda>x. f x = f y) ys" unfolding s by simp
  finally have "filter (\<lambda>x. P x \<and> f x = f y) zs = y # filter (\<lambda>x. f x = f y) ys"
    by simp
  then obtain us vs where zs: "zs = us @ y # vs" and us: "\<forall>u\<in>set us. \<not> (P u \<and> f u = f y)"
    unfolding filter_eq_Cons_iff by blast
  have "\<forall>q\<in>set us. P q \<longrightarrow> f y < f q"
  proof (intro ballI impI)
    fix q assume q: "q \<in> set us" "P q"
    then have "q \<in> set (filter P zs)" unfolding zs by simp
    then have "f y \<le> f q" by (rule sort_key_head_least [OF s])
    moreover have "f q \<noteq> f y" using us q by blast
    ultimately show "f y < f q" by simp
  qed
  with zs show ?thesis by blast
qed

lemma filter_eq_replicate: "filter (\<lambda>x. k = x) l = replicate (count (mset l) k) k"
  by (induction l) auto

lemma sort_key_inj_perm:
  assumes m: "mset xs = mset ys" and inj: "inj_on f (set xs)"
  shows "sort_key f xs = sort_key f ys"
proof (rule properties_for_sort_key)
  show "mset (sort_key f ys) = mset xs" using m by simp
  show "sorted (map f (sort_key f ys))" by (rule sorted_sort_key)
  fix k assume "k \<in> set (sort_key f ys)"
  then have k: "k \<in> set xs" using m by (metis set_sort set_mset_mset)
  have sy: "set ys = set xs" using m by (metis set_mset_mset)
  have "filter (\<lambda>x. f k = f x) (sort_key f ys) = filter (\<lambda>x. f x = f k) (sort_key f ys)"
    by (rule filter_cong) auto
  also have "\<dots> = filter (\<lambda>x. f x = f k) ys" by (rule sort_key_stable)
  also have "\<dots> = filter (\<lambda>x. k = x) ys"
    by (rule filter_cong) (use inj k sy in \<open>auto dest: inj_onD\<close>)
  also have "\<dots> = replicate (count (mset ys) k) k" by (rule filter_eq_replicate)
  also have "\<dots> = replicate (count (mset xs) k) k" using m by simp
  also have "\<dots> = filter (\<lambda>x. k = x) xs" by (rule filter_eq_replicate [symmetric])
  also have "\<dots> = filter (\<lambda>x. f k = f x) xs"
    by (rule filter_cong) (use inj k in \<open>auto dest: inj_onD\<close>)
  finally show "filter (\<lambda>x. f k = f x) (sort_key f ys) = filter (\<lambda>x. f k = f x) xs" .
qed

lemma mset_group:
  assumes "mset poi' = mset poi"
  shows "mset (filter (\<lambda>p. nslc p = k) (map snd poi')) = mset (filter (\<lambda>p. nslc p = k) (map snd poi))"
proof -
  have "mset (map snd poi') = mset (map snd poi)"
    using assms by (metis mset_map)
  then show ?thesis by (metis mset_filter)
qed

section \<open>The world at work\<close>

lemma ex_candidates:
  "candidates ex_lib ex_origin ex_inventory [''dlpicker''] 105 3 ex_query = ([(''p1'', ex_pick1)], None)"
  by (simp add: candidates_def loadPicksForTimespan_def ex_query_def ex_pick1_def ex_origin_def
      ex_inventory_def ex_lib_def hypocentre_of_def getStations_def authorOf_def collect_body_def
      predict_def nslc_def Let_def)

lemma ex_groups:
  "sort_groups (group_picks [(''p1'', ex_pick1)]) = [((''GE'', ''STA1'', [], ''BHZ''), [ex_pick1])]"
  by (simp add: sort_groups_def group_picks_def group_body_def nslc_def ex_pick1_def)

lemmas ex_defs = ex_query_def ex_pick1_def ex_origin_def ex_inventory_def ex_lib_def
  ex_pick2_def ex_manual_pick_def ex_manual_arrival_def ex_query_manual_def ex_isManual_def
  ex_pickA_def ex_pickB_def ex_pickC_def ex_query_ab_def ex_query_ba_def
  ex_rec1_def ex_rec2_def ex_rec3_def ex_world_gappy_def ex_world_contiguous_def ex_world_far_def
  ex_app_far_def ex_inventory_far_def ex_pick9_def ex_query_far_def
  ex_pick_sc_def ex_app_def ex_world_def ex_workspace_def ex_arrival_def ex_origin_regional_def
  ex_origin_tele_def ex_origin_partial_def ex_origin_forty_def

lemmas client_defs = processOrigin_def processOrigin_workspace_def processOrigin_picks_def
  streamIDs_body_def del_body_def incomplete_body_def record_nslc_def getAssociatedPicksForOrigin_def
  pick_body_def predicted_body_def store_waveforms_def loadWaveformsForPicks_def request_body_def
  addStream_body_def receive_body_def gappyStreams_def findUnpickedStations_def unpicked_body_def
  adaptive_maxDelta_def used_distances_def numpy_average_def binary64_def ulp_def exponent_def
  round_even_def exponent_up.simps exponent_down.simps gt_def lt_def isRepick_def
  methodIDs_def is_manual_def haskey_def client_globals_def predicted_pick_def

lemmas model_defs = candidates_def loadPicksForTimespan_def hypocentre_of_def getStations_def
  authorOf_def collect_body_def predict_def nslc_def Let_def sort_groups_def group_picks_def
  group_body_def loadArrivals_def clearAllArrivals_def clearAutomaticArrivals_def
  associated_picks_of_def manual_body_def associate_body_def new_arrival_def

lemma ex_loaded:
  "loadPicksForTimespan ex_query (otime ex_origin) (otime ex_origin + 1200) [''dlpicker'']
   = [(''p1'', ex_pick1)]"
  by (simp add: loadPicksForTimespan_def ex_query_def authorOf_def ex_pick1_def)

lemma ex_predict:
  "predict ex_lib (hypocentre_of ex_origin) (getStations ex_inventory (otime ex_origin)) 105
     (nslc ex_pick1) ex_pick1 = Predicted 20 1"
  by (simp add: predict_def hypocentre_of_def getStations_def nslc_def ex_defs)

lemma ex_run:
  "loadPicksForOrigin ex_lib ex_isManual ex_origin ex_inventory [''dlpicker''] 105 3 ex_query True
   = (ex_origin\<lparr>arrivals := [new_arrival ex_pick1 20 105]\<rparr>, Returns [ex_pick1])"
  by (simp add: loadPicksForOrigin_def ex_candidates ex_groups)
     (simp add: model_defs ex_defs)

lemma ex_candidates_manual:
  "candidates ex_lib ex_origin ex_inventory [''dlpicker''] 105 3 ex_query_manual
   = ([(''p1'', ex_pick1), (''p2'', ex_pick2)], None)"
  by (simp add: model_defs ex_defs)

lemma ex_groups_manual:
  "sort_groups (group_picks [(''p1'', ex_pick1), (''p2'', ex_pick2)])
   = [((''GE'', ''STA1'', [], ''BHZ''), [ex_pick1]), ((''GE'', ''STA2'', [], ''BHZ''), [ex_pick2])]"
  by (simp add: sort_groups_def group_picks_def group_body_def nslc_def ex_pick1_def ex_pick2_def)

lemma ex_run_manual:
  "loadPicksForOrigin ex_lib ex_isManual ex_origin ex_inventory [''dlpicker''] 105 3 ex_query_manual True
   = (ex_origin\<lparr>arrivals := [ex_manual_arrival, new_arrival ex_pick2 30 105]\<rparr>,
      Returns [ex_manual_pick, ex_pick2])"
  by (simp add: loadPicksForOrigin_def ex_candidates_manual ex_groups_manual)
     (simp add: model_defs ex_defs)

lemma ex_groups_ac:
  "sort_groups (group_picks [(''a'', ex_pickA), (''c'', ex_pickC)])
   = [((''GE'', ''STA1'', [], ''BHZ''), [ex_pickC, ex_pickA])]"
  by (simp add: sort_groups_def group_picks_def group_body_def nslc_def ex_pickA_def ex_pickC_def)

lemma ex_groups_ca:
  "sort_groups (group_picks [(''c'', ex_pickC), (''a'', ex_pickA)])
   = [((''GE'', ''STA1'', [], ''BHZ''), [ex_pickC, ex_pickA])]"
  by (simp add: sort_groups_def group_picks_def group_body_def nslc_def ex_pickA_def ex_pickC_def)

lemma ex_candidates_ab:
  "candidates ex_lib ex_origin ex_inventory [''dlpicker''] 105 3 ex_query_ab
   = ([(''a'', ex_pickA), (''b'', ex_pickB)], None)"
  by (simp add: model_defs ex_defs)

lemma ex_candidates_ba:
  "candidates ex_lib ex_origin ex_inventory [''dlpicker''] 105 3 ex_query_ba
   = ([(''b'', ex_pickB), (''a'', ex_pickA)], None)"
  by (simp add: model_defs ex_defs)

lemma ex_groups_ab:
  "sort_groups (group_picks [(''a'', ex_pickA), (''b'', ex_pickB)])
   = [((''GE'', ''STA1'', [], ''BHZ''), [ex_pickA, ex_pickB])]"
  by (simp add: sort_groups_def group_picks_def group_body_def nslc_def ex_pickA_def ex_pickB_def)

lemma ex_groups_ba:
  "sort_groups (group_picks [(''b'', ex_pickB), (''a'', ex_pickA)])
   = [((''GE'', ''STA1'', [], ''BHZ''), [ex_pickB, ex_pickA])]"
  by (simp add: sort_groups_def group_picks_def group_body_def nslc_def ex_pickA_def ex_pickB_def)

lemma ex_run_ab:
  "loadPicksForOrigin ex_lib ex_isManual ex_origin ex_inventory [''dlpicker''] 105 3 ex_query_ab True
   = (ex_origin\<lparr>arrivals := [new_arrival ex_pickA 20 105]\<rparr>, Returns [ex_pickA])"
  by (simp add: loadPicksForOrigin_def ex_candidates_ab ex_groups_ab)
     (simp add: model_defs ex_defs)

lemma ex_run_ba:
  "loadPicksForOrigin ex_lib ex_isManual ex_origin ex_inventory [''dlpicker''] 105 3 ex_query_ba True
   = (ex_origin\<lparr>arrivals := [new_arrival ex_pickB 20 105]\<rparr>, Returns [ex_pickB])"
  by (simp add: loadPicksForOrigin_def ex_candidates_ba ex_groups_ba)
     (simp add: model_defs ex_defs)

lemma ex_pass_attempted:
  "processOrigin client_globals ex_app ex_world ex_origin_regional ''ev1'' [(''ev1'', ex_ws_attempted)]
   = (([(''ev1'', ex_ws_attempted\<lparr>ws_origin := Some ex_origin_regional\<rparr>)],
       [''Skipping previously attempted repick s1'']), None)"
  by (simp add: client_defs ex_defs ex_ws_attempted_def Let_def)

text \<open>
  A workspace that holds two of the three component streams of a station: the pass
  deletes both.
\<close>

lemma ex_incomplete_group_deleted:
  "processOrigin client_globals ex_app ex_world ex_origin_regional ''ev1''
     [(''ev1'', ex_ws_attempted\<lparr>waveforms :=
         [(''GE.STA1..BHZ'', [ex_rec1]), (''GE.STA1..BHN'', [ex_rec1])]\<rparr>)]
   = (([(''ev1'', ex_ws_attempted\<lparr>ws_origin := Some ex_origin_regional\<rparr>)],
       [''Skipping previously attempted repick s1'', ''Incomplete stream GE.STA1..BHZ ignored'',
        ''Incomplete stream GE.STA1..BHN ignored'']), None)"
  by (simp add: client_defs ex_defs ex_ws_attempted_def Let_def)

section \<open>The picks of a workspace over a pass\<close>

lemma haskey_iff: "haskey d k \<longleftrightarrow> k \<in> fst ` set d"
  by (simp add: haskey_def map_of_eq_None_iff)

lemma fold_invariant:
  assumes "P s" and "\<And>x s. x \<in> set xs \<Longrightarrow> P s \<Longrightarrow> P (f x s)"
  shows "P (fold f xs s)"
  using assms by (induction xs arbitrary: s) auto

lemma pick_body_inv:
  assumes "pass_inv A (fst st)"
  shows "pass_inv A (fst (pick_body app p st))"
proof -
  obtain ws log0 where st: "st = (ws, log0)" by (cases st)
  show ?thesis
    using assms unfolding st pick_body_def pass_inv_def Let_def
    by (auto simp: haskey_iff dom_update)
qed

lemma predicted_body_inv:
  assumes "pass_inv A (fst st)"
  shows "pass_inv A (fst (predicted_body kp st))"
proof -
  obtain ws log0 where st: "st = (ws, log0)" by (cases st)
  obtain pid p where kp: "kp = (pid, p)" by (cases kp)
  show ?thesis
    using assms unfolding st kp predicted_body_def pass_inv_def Let_def
    by (auto simp: haskey_iff dom_update)
qed

lemma store_waveforms_inv: "pass_inv A (store_waveforms wfs ws) = pass_inv A ws"
  by (simp add: store_waveforms_def pass_inv_def)

lemma fold_pick_body_inv:
  "pass_inv A (fst st) \<Longrightarrow> pass_inv A (fst (fold (pick_body app) ps st))"
  by (rule fold_invariant [where P = "\<lambda>st. pass_inv A (fst st)"]) (simp_all add: pick_body_inv)

lemma fold_predicted_body_inv:
  "pass_inv A (fst st) \<Longrightarrow> pass_inv A (fst (fold predicted_body ps st))"
  by (rule fold_invariant [where P = "\<lambda>st. pass_inv A (fst st)"]) (simp_all add: predicted_body_inv)

lemma processOrigin_picks_inv:
  "pass_inv (fst ` set (attempted_picks ws0))
     (fst (fst (processOrigin_picks g app w org eventID ws0)))"
proof -
  let ?A = "fst ` set (attempted_picks ws0)"
  let ?ws1 = "ws0\<lparr>ws_origin := Some org, new_picks := []\<rparr>"
  let ?st2 = "fold (pick_body app) (getAssociatedPicksForOrigin g w (originID org)) (?ws1, [])"
  have i1: "pass_inv ?A (fst (?ws1, []::string list))" by (simp add: pass_inv_def)
  have i2: "pass_inv ?A (fst ?st2)" by (rule fold_pick_body_inv [OF i1])
  show ?thesis
  proof (cases "loadWaveformsForPicks w app (new_picks (fst ?st2)) eventID")
    case (Raises e)
    then show ?thesis using i2 by (simp add: processOrigin_picks_def Let_def)
  next
    case (Returns r)
    obtain wfs warnings where r: "r = (wfs, warnings)" by (cases r)
    let ?st3 = "(store_waveforms wfs (fst ?st2), snd ?st2 @ warnings)"
    have i3: "pass_inv ?A (fst ?st3)" using i2 by (simp add: store_waveforms_inv)
    show ?thesis
    proof (cases "tryUpickedStations app")
      case False
      then show ?thesis using Returns r i3 by (simp add: processOrigin_picks_def Let_def)
    next
      case True
      show ?thesis
      proof (cases "findUnpickedStations w app org (adaptive_maxDelta g org) (all_picks (fst ?st3))")
        case (Raises e)
        then show ?thesis
          using Returns r i3 True by (simp add: processOrigin_picks_def Let_def)
      next
        case pp: (Returns predictedPicks)
        let ?st4 = "fold predicted_body predictedPicks ?st3"
        have i4: "pass_inv ?A (fst ?st4)" by (rule fold_predicted_body_inv [OF i3])
        show ?thesis
        proof (cases "loadWaveformsForPicks w app (new_picks (fst ?st4)) eventID")
          case (Raises e)
          then show ?thesis
            using Returns r i3 i4 True pp by (simp add: processOrigin_picks_def Let_def)
        next
          case r2: (Returns r')
          obtain wfs2 warnings2 where r': "r' = (wfs2, warnings2)" by (cases r')
          show ?thesis
            using Returns r i3 i4 True pp r2 r'
            by (simp add: processOrigin_picks_def Let_def store_waveforms_inv)
        qed
      qed
    qed
  qed
qed

lemma del_body_inv:
  assumes "pass_inv A (fst st)" and "del_body sid st = (st', e)"
  shows "pass_inv A (fst st')"
proof -
  obtain ws log0 where st: "st = (ws, log0)" by (cases st)
  have "attempted_picks (fst st') = attempted_picks ws \<and> new_picks (fst st') = new_picks ws"
    using assms(2) unfolding st del_body_def by (auto split: if_splits)
  then show ?thesis using assms(1) st by (simp add: pass_inv_def)
qed

lemma incomplete_body_inv:
  assumes "pass_inv A (fst st)" and "incomplete_body g st = (st', e)"
  shows "pass_inv A (fst st')"
proof -
  obtain nsl sids where g: "g = (nsl, sids)" by (cases g)
  show ?thesis
  proof (cases "length sids < 3")
    case True
    have "pass_inv A (fst (fst (for_each del_body sids st)))"
      by (rule for_each_invariant [where P = "\<lambda>st. pass_inv A (fst st)"])
         (use assms(1) del_body_inv in blast)+
    then show ?thesis using assms(2) True g by (simp add: incomplete_body_def)
  next
    case False
    then show ?thesis using assms g by (simp add: incomplete_body_def)
  qed
qed

lemma processOrigin_workspace_inv:
  "pass_inv (fst ` set (attempted_picks ws0))
     (fst (fst (processOrigin_workspace g app w org eventID ws0)))"
proof -
  let ?A = "fst ` set (attempted_picks ws0)"
  obtain st e where p: "processOrigin_picks g app w org eventID ws0 = (st, e)"
    by (cases "processOrigin_picks g app w org eventID ws0")
  have i: "pass_inv ?A (fst st)"
    using processOrigin_picks_inv [of ws0 g app w org eventID] p by simp
  show ?thesis
  proof (cases e)
    case (Some err)
    then show ?thesis using p i by (simp add: processOrigin_workspace_def)
  next
    case None
    show ?thesis
    proof (cases "dump w (fst st)")
      case (Some err)
      then show ?thesis using p None i by (simp add: processOrigin_workspace_def)
    next
      case d: None
      obtain streamIDs e' where f: "for_each streamIDs_body (waveforms (fst st)) [] = (streamIDs, e')"
        by (cases "for_each streamIDs_body (waveforms (fst st)) []")
      show ?thesis
      proof (cases e')
        case (Some err)
        then show ?thesis using p None d f i by (simp add: processOrigin_workspace_def)
      next
        case n: None
        have "pass_inv ?A (fst (fst (for_each incomplete_body streamIDs st)))"
          by (rule for_each_invariant [where P = "\<lambda>st. pass_inv ?A (fst st)"])
             (use i incomplete_body_inv in blast)+
        then show ?thesis using p None d f n by (simp add: processOrigin_workspace_def)
      qed
    qed
  qed
qed

lemma run_pass_cases:
  "run_pass g app p wss = wss
   \<or> (\<exists>ws0. map_of wss (pass_event p) = Some ws0
        \<and> run_pass g app p wss =
            AList.update (pass_event p)
              (fst (fst (processOrigin_workspace g app (pass_world p) (pass_origin p) (pass_event p) ws0)))
              wss)"
proof (cases "map_of wss (pass_event p)")
  case None
  then show ?thesis by (simp add: run_pass_def processOrigin_def)
next
  case (Some ws0)
  obtain ws' log' e where r: "processOrigin_workspace g app (pass_world p) (pass_origin p) (pass_event p) ws0
      = ((ws', log'), e)" by (metis surj_pair)
  show ?thesis using Some r by (simp add: run_pass_def processOrigin_def)
qed

lemma run_pass_attempted:
  "attempted_of wss eid \<subseteq> attempted_of (run_pass g app p wss) eid"
  using run_pass_cases [of g app p wss]
proof
  assume "run_pass g app p wss = wss"
  then show ?thesis by simp
next
  assume "\<exists>ws0. map_of wss (pass_event p) = Some ws0
        \<and> run_pass g app p wss =
            AList.update (pass_event p)
              (fst (fst (processOrigin_workspace g app (pass_world p) (pass_origin p) (pass_event p) ws0)))
              wss"
  then obtain ws0 where w: "map_of wss (pass_event p) = Some ws0"
    and r: "run_pass g app p wss = AList.update (pass_event p)
              (fst (fst (processOrigin_workspace g app (pass_world p) (pass_origin p) (pass_event p) ws0)))
              wss" by blast
  show ?thesis
  proof (cases "eid = pass_event p")
    case True
    then show ?thesis
      using w r processOrigin_workspace_inv [of ws0 g app "pass_world p" "pass_origin p" "pass_event p"]
      by (simp add: attempted_of_def update_conv' pass_inv_def)
  next
    case False
    then show ?thesis using r by (simp add: attempted_of_def update_conv')
  qed
qed

lemma run_pass_new:
  assumes "pid \<in> attempted_of wss eid" and "pid \<in> new_of (run_pass g app p wss) eid"
  shows "map_of (run_pass g app p wss) eid = map_of wss eid"
  using run_pass_cases [of g app p wss]
proof
  assume "run_pass g app p wss = wss"
  then show ?thesis by simp
next
  assume "\<exists>ws0. map_of wss (pass_event p) = Some ws0
        \<and> run_pass g app p wss =
            AList.update (pass_event p)
              (fst (fst (processOrigin_workspace g app (pass_world p) (pass_origin p) (pass_event p) ws0)))
              wss"
  then obtain ws0 where w: "map_of wss (pass_event p) = Some ws0"
    and r: "run_pass g app p wss = AList.update (pass_event p)
              (fst (fst (processOrigin_workspace g app (pass_world p) (pass_origin p) (pass_event p) ws0)))
              wss" by blast
  show ?thesis
  proof (cases "eid = pass_event p")
    case True
    have "False"
      using assms True w r
        processOrigin_workspace_inv [of ws0 g app "pass_world p" "pass_origin p" "pass_event p"]
      by (auto simp: attempted_of_def new_of_def update_conv' pass_inv_def)
    then show ?thesis ..
  next
    case False
    then show ?thesis using r by (simp add: update_conv')
  qed
qed

lemma run_passes_attempted:
  "attempted_of wss eid \<subseteq> attempted_of (run_passes g app ps wss) eid"
proof (induction ps arbitrary: wss)
  case Nil
  then show ?case by (simp add: run_passes_def)
next
  case (Cons p ps)
  have "attempted_of wss eid \<subseteq> attempted_of (run_pass g app p wss) eid"
    by (rule run_pass_attempted)
  also have "\<dots> \<subseteq> attempted_of (run_passes g app ps (run_pass g app p wss)) eid"
    by (rule Cons.IH)
  finally show ?case by (simp add: run_passes_def)
qed

lemma run_passes_snoc:
  "run_passes g app (ps @ [p]) wss = run_pass g app p (run_passes g app ps wss)"
  by (simp add: run_passes_def)

section \<open>C1: a gappy stream stays in the waveform set\<close>

lemma reported_gappy_streams_are_returned:
  assumes "loadWaveformsForPicks w app picks eventID = Returns (wfs, warnings)"
  shows "set (gappyStreams wfs) \<subseteq> fst ` set wfs"
  by (auto simp: gappyStreams_def)

lemma gappy_warnings:
  assumes "loadWaveformsForPicks w app picks eventID = Returns (wfs, warnings)"
  shows "warnings = map (\<lambda>sid. ''Gappy stream '' @ sid @ '' ignored'') (gappyStreams wfs)"
  using assms
  by (auto simp: loadWaveformsForPicks_def Let_def gappyStreams_def split: if_splits prod.splits option.splits)

text \<open>
  C1 fails on the code. The record stream delivers two records of the stream
  \<open>GE.STA1..BHZ\<close> with 1.01 s between the end of the first and the start of the second.
  \<open>_loadWaveformsForPicks\<close> finds the stream gappy and logs "Gappy stream GE.STA1..BHZ
  ignored", and returns the stream with both records: \<open>gappyStreams\<close> is only logged.
\<close>

theorem gappy_stream_is_returned:
  "startTime ex_rec2 - endTime ex_rec1 = 1.01
   \<and> gappy [ex_rec1, ex_rec2] 1
   \<and> loadWaveformsForPicks ex_world_gappy ex_app [(''s1'', ex_pick_sc)] ''ev1''
     = Returns ([(''GE.STA1..BHZ'', [ex_rec1, ex_rec2])], [''Gappy stream GE.STA1..BHZ ignored''])"
  by (simp add: client_defs ex_defs Let_def)

text \<open>With a gap of 0.99 s the stream is returned as well, and no warning is logged.\<close>

lemma contiguous_stream_is_returned:
  "startTime ex_rec3 - endTime ex_rec1 = 0.99
   \<and> \<not> gappy [ex_rec1, ex_rec3] 1
   \<and> loadWaveformsForPicks ex_world_contiguous ex_app [(''s1'', ex_pick_sc)] ''ev1''
     = Returns ([(''GE.STA1..BHZ'', [ex_rec1, ex_rec3])], [])"
  by (simp add: client_defs ex_defs Let_def)

section \<open>C2: a pick with a repick result is not skipped\<close>

text \<open>
  C2 fails on the code. The workspace of the event holds a repick result for the pick
  \<open>s1\<close> and no attempted pick; the origin has \<open>s1\<close> associated, an automatic pick that is
  no repick. The pass logs "Skipping already repicked s1" and then adds \<open>s1\<close> to both
  \<open>new_picks\<close> and \<open>attempted_picks\<close>: the branch at line 670 has no \<open>continue\<close>.
\<close>

theorem already_repicked_is_added:
  "haskey (mlpicks ex_ws_repicked) ''s1''
   \<and> processOrigin client_globals ex_app ex_world ex_origin_regional ''ev1'' [(''ev1'', ex_ws_repicked)]
     = (([(''ev1'', ex_ws_repicked\<lparr>ws_origin := Some ex_origin_regional,
                                      all_picks := [(''s1'', ex_pick_sc)],
                                      new_picks := [(''s1'', ex_pick_sc)],
                                      attempted_picks := [(''s1'', ex_pick_sc)]\<rparr>)],
         [''Added to workspace pick s1'', ''Skipping already repicked s1'', ''Adding new pick s1'']),
        None)"
  by (simp add: client_defs ex_defs ex_ws_repicked_def Let_def)

section \<open>C3: the adaptive maximum distance\<close>

subsection \<open>How far a rounded result is from the exact one\<close>









subsection \<open>The three largest distances\<close>







section \<open>C4: a manual P arrival blocks the automatic picks of its stream\<close>

text \<open>
  C4. In a run of \<open>loadPicksForOrigin\<close> with \<open>keepManualPicks\<close> set, the arrival list
  at the end is the list of the retained manual arrivals followed by the appended
  automatic ones. Every appended arrival has phase P and refers to a candidate pick whose
  waveform ID differs from that of the pick of every retained manual arrival of phase P;
  and for a channel group whose representative has the waveform ID of such a manual
  arrival, no appended arrival refers to the representative.
\<close>

theorem manual_precedence:
  assumes cand: "candidates lib org inventory allowed maxDelta maxResidual q = (poi, None)"
    and run: "loadPicksForOrigin lib isManual org inventory allowed maxDelta maxResidual q True
              = (org', out)"
  shows "\<exists>new. arrivals org' = manual_arrivals q isManual org @ new
     \<and> (\<forall>a\<in>set new. phase a = ''P''
           \<and> (\<exists>p. map_of poi (pickID a) = Some p
                \<and> (\<forall>ma\<in>set (manual_arrivals q isManual org). \<forall>mp.
                      map_of (associated_picks_of q org) (pickID ma) = Some mp \<and> phase ma = ''P''
                      \<longrightarrow> waveformID mp \<noteq> waveformID p)))
     \<and> (\<forall>k p ps ma mp.
           (k, p # ps) \<in> set (sort_groups (group_picks poi))
           \<and> ma \<in> set (manual_arrivals q isManual org)
           \<and> map_of (associated_picks_of q org) (pickID ma) = Some mp
           \<and> phase ma = ''P'' \<and> waveformID mp = waveformID p
           \<longrightarrow> (\<forall>a\<in>set new. pickID a \<noteq> publicID p))"
proof -
  let ?M = "manual_arrivals q isManual org"
  let ?G = "sort_groups (group_picks poi)"
  from loadPicksForOrigin_True [OF cand run] obtain new where
    n1: "arrivals org' = ?M @ new"
    and n2: "\<forall>a\<in>set new. \<exists>spl.
            accepted lib (hypocentre_of org) (getStations inventory (otime org))
              maxDelta maxResidual spl ?G a
          \<and> (\<forall>ma\<in>set ?M. \<forall>mp.
                map_of (associated_picks_of q org) (pickID ma) = Some mp
                \<longrightarrow> (waveformID mp, phase ma) \<in> set spl)"
    by blast
  have rep: "map_of poi (publicID p) = Some p" if "(k, p # ps) \<in> set ?G" for k p ps
  proof -
    have "p \<in> set (p # ps)" by simp
    then have "p \<in> snd ` set poi" using group_members(1) [OF that] by blast
    then show ?thesis by (rule candidates_lookup [OF cand])
  qed
  have A: "\<forall>a\<in>set new. phase a = ''P''
           \<and> (\<exists>p. map_of poi (pickID a) = Some p
                \<and> (\<forall>ma\<in>set ?M. \<forall>mp.
                      map_of (associated_picks_of q org) (pickID ma) = Some mp \<and> phase ma = ''P''
                      \<longrightarrow> waveformID mp \<noteq> waveformID p))"
  proof
    fix a assume "a \<in> set new"
    with n2 obtain spl where acc: "accepted lib (hypocentre_of org) (getStations inventory (otime org))
              maxDelta maxResidual spl ?G a"
      and spl: "\<forall>ma\<in>set ?M. \<forall>mp.
                map_of (associated_picks_of q org) (pickID ma) = Some mp
                \<longrightarrow> (waveformID mp, phase ma) \<in> set spl" by blast
    from acc obtain k p ps delta where g: "(k, p # ps) \<in> set ?G"
      and a: "a = new_arrival p delta maxDelta" and nb: "(waveformID p, ''P'') \<notin> set spl"
      unfolding accepted_def by blast
    have ph: "phase a = ''P''" and pid: "pickID a = publicID p"
      using a by (simp_all add: new_arrival_def)
    have "\<forall>ma\<in>set ?M. \<forall>mp.
            map_of (associated_picks_of q org) (pickID ma) = Some mp \<and> phase ma = ''P''
            \<longrightarrow> waveformID mp \<noteq> waveformID p"
      using spl nb by metis
    then show "phase a = ''P''
           \<and> (\<exists>p. map_of poi (pickID a) = Some p
                \<and> (\<forall>ma\<in>set ?M. \<forall>mp.
                      map_of (associated_picks_of q org) (pickID ma) = Some mp \<and> phase ma = ''P''
                      \<longrightarrow> waveformID mp \<noteq> waveformID p))"
      using ph pid rep [OF g] by auto
  qed
  have B: "\<forall>k p ps ma mp.
           (k, p # ps) \<in> set ?G
           \<and> ma \<in> set ?M
           \<and> map_of (associated_picks_of q org) (pickID ma) = Some mp
           \<and> phase ma = ''P'' \<and> waveformID mp = waveformID p
           \<longrightarrow> (\<forall>a\<in>set new. pickID a \<noteq> publicID p)"
  proof (intro allI impI ballI)
    fix k p ps ma mp a
    assume h: "(k, p # ps) \<in> set ?G
           \<and> ma \<in> set ?M
           \<and> map_of (associated_picks_of q org) (pickID ma) = Some mp
           \<and> phase ma = ''P'' \<and> waveformID mp = waveformID p"
      and a: "a \<in> set new"
    show "pickID a \<noteq> publicID p"
    proof
      assume eq: "pickID a = publicID p"
      from A a obtain p' where p': "map_of poi (pickID a) = Some p'"
        and d: "\<forall>ma\<in>set ?M. \<forall>mp.
                      map_of (associated_picks_of q org) (pickID ma) = Some mp \<and> phase ma = ''P''
                      \<longrightarrow> waveformID mp \<noteq> waveformID p'" by blast
      have "p' = p" using p' eq rep [of k p ps] h by simp
      then show False using d h by blast
    qed
  qed
  from n1 A B show ?thesis by blast
qed

theorem manual_precedence_witness:
  "candidates ex_lib ex_origin ex_inventory [''dlpicker''] 105 3 ex_query_manual
     = ([(''p1'', ex_pick1), (''p2'', ex_pick2)], None)
   \<and> loadPicksForOrigin ex_lib ex_isManual ex_origin ex_inventory [''dlpicker''] 105 3 ex_query_manual True
     = (ex_origin\<lparr>arrivals := [ex_manual_arrival, new_arrival ex_pick2 30 105]\<rparr>,
        Returns [ex_manual_pick, ex_pick2])
   \<and> (\<exists>new. arrivals (ex_origin\<lparr>arrivals := [ex_manual_arrival, new_arrival ex_pick2 30 105]\<rparr>)
          = manual_arrivals ex_query_manual ex_isManual ex_origin @ new
     \<and> (\<forall>a\<in>set new. phase a = ''P''
           \<and> (\<exists>p. map_of [(''p1'', ex_pick1), (''p2'', ex_pick2)] (pickID a) = Some p
                \<and> (\<forall>ma\<in>set (manual_arrivals ex_query_manual ex_isManual ex_origin). \<forall>mp.
                      map_of (associated_picks_of ex_query_manual ex_origin) (pickID ma) = Some mp
                      \<and> phase ma = ''P''
                      \<longrightarrow> waveformID mp \<noteq> waveformID p)))
     \<and> (\<forall>k p ps ma mp.
           (k, p # ps) \<in> set (sort_groups (group_picks [(''p1'', ex_pick1), (''p2'', ex_pick2)]))
           \<and> ma \<in> set (manual_arrivals ex_query_manual ex_isManual ex_origin)
           \<and> map_of (associated_picks_of ex_query_manual ex_origin) (pickID ma) = Some mp
           \<and> phase ma = ''P'' \<and> waveformID mp = waveformID p
           \<longrightarrow> (\<forall>a\<in>set new. pickID a \<noteq> publicID p)))"
  by (intro conjI)
     (rule ex_candidates_manual, rule ex_run_manual,
      rule manual_precedence [OF ex_candidates_manual ex_run_manual])

text \<open>In the scenario the automatic pick on the stream of the manual arrival is left out.\<close>

lemma ex_manual_scenario:
  "map pickID (arrivals (fst (loadPicksForOrigin ex_lib ex_isManual ex_origin ex_inventory
      [''dlpicker''] 105 3 ex_query_manual True))) = [''m1'', ''p2'']"
  by (simp add: ex_run_manual ex_manual_arrival_def new_arrival_def ex_pick2_def)

section \<open>C5: the representative of a channel group\<close>

text \<open>
  C5, as amended. The representative of a channel group (the first pick of the group
  sorted by creation time) is a candidate of that stream whose creation time is the least
  of the group. If the creation times within the group are pairwise distinct, the sorted
  group and its representative are the same for every order of the candidates. The sort
  is stable, so among the picks of the group created at the least time the first in the
  order of the candidates is the representative: every candidate of the stream that
  comes before it was created later.
\<close>

theorem representative_earliest:
  assumes g: "(k, p # ps) \<in> set (sort_groups (group_picks poi))"
  shows "p \<in> snd ` set poi \<and> nslc p = k
       \<and> (\<forall>p'\<in>snd ` set poi. nslc p' = k \<longrightarrow> creationTime p \<le> creationTime p')
       \<and> (\<forall>poi'. mset poi' = mset poi
              \<and> inj_on creationTime {p' \<in> snd ` set poi. nslc p' = k}
              \<longrightarrow> (k, p # ps) \<in> set (sort_groups (group_picks poi')))
       \<and> (\<exists>before after. map snd poi = before @ p # after
              \<and> (\<forall>x\<in>set before. nslc x = k \<longrightarrow> creationTime p < creationTime x))
       \<and> (\<forall>lib org inventory allowed maxDelta maxResidual q.
              candidates lib org inventory allowed maxDelta maxResidual q = (poi, None)
              \<and> distinct (map publicID (delivered q (otime org) (otime org + 1200)))
              \<longrightarrow> (\<exists>before after.
                     delivered q (otime org) (otime org + 1200) = before @ p # after
                     \<and> (\<forall>x\<in>set before. x \<in> snd ` set poi \<and> nslc x = k
                            \<longrightarrow> creationTime p < creationTime x)))"
proof -
  let ?xs = "filter (\<lambda>p. nslc p = k) (map snd poi)"
  from g have ne: "?xs \<noteq> []" and s: "p # ps = sort_key creationTime ?xs"
    by (simp_all add: sort_groups_member)
  have "p \<in> set (p # ps)" by simp
  then have 1: "p \<in> snd ` set poi \<and> nslc p = k"
    using group_members(1) [OF g] by blast
  have 2: "\<forall>p'\<in>snd ` set poi. nslc p' = k \<longrightarrow> creationTime p \<le> creationTime p'"
  proof (intro ballI impI)
    fix p' assume "p' \<in> snd ` set poi" "nslc p' = k"
    then have "p' \<in> set ?xs" by auto
    then show "creationTime p \<le> creationTime p'"
      using sort_key_head_least [OF s [symmetric]] by blast
  qed
  have 3: "\<forall>poi'. mset poi' = mset poi
              \<and> inj_on creationTime {p' \<in> snd ` set poi. nslc p' = k}
              \<longrightarrow> (k, p # ps) \<in> set (sort_groups (group_picks poi'))"
  proof (intro allI impI)
    fix poi'
    assume h: "mset poi' = mset poi \<and> inj_on creationTime {p' \<in> snd ` set poi. nslc p' = k}"
    let ?ys = "filter (\<lambda>p. nslc p = k) (map snd poi')"
    have m: "mset ?xs = mset ?ys" using mset_group [of poi' poi k] h by simp
    have "set ?xs = {p' \<in> snd ` set poi. nslc p' = k}" by auto
    then have inj: "inj_on creationTime (set ?xs)" using h by simp
    have eq: "sort_key creationTime ?xs = sort_key creationTime ?ys"
      by (rule sort_key_inj_perm [OF m inj])
    have "?ys \<noteq> []" using m ne by (metis mset_zero_iff)
    then show "(k, p # ps) \<in> set (sort_groups (group_picks poi'))"
      using s eq by (simp add: sort_groups_member)
  qed
  have 4: "\<exists>before after. map snd poi = before @ p # after
              \<and> (\<forall>x\<in>set before. nslc x = k \<longrightarrow> creationTime p < creationTime x)"
    by (rule sort_key_head_first [OF s [symmetric]])
  have 5: "\<forall>lib org inventory allowed maxDelta maxResidual q.
              candidates lib org inventory allowed maxDelta maxResidual q = (poi, None)
              \<and> distinct (map publicID (delivered q (otime org) (otime org + 1200)))
              \<longrightarrow> (\<exists>before after.
                     delivered q (otime org) (otime org + 1200) = before @ p # after
                     \<and> (\<forall>x\<in>set before. x \<in> snd ` set poi \<and> nslc x = k
                            \<longrightarrow> creationTime p < creationTime x))"
  proof (intro allI impI)
    fix lib org inventory allowed maxDelta maxResidual q
    assume h: "candidates lib org inventory allowed maxDelta maxResidual q = (poi, None)
              \<and> distinct (map publicID (delivered q (otime org) (otime org + 1200)))"
    let ?del = "delivered q (otime org) (otime org + 1200)"
    let ?C = "\<lambda>p. authorOf p \<in> Some ` set allowed
                \<and> passes4 lib (hypocentre_of org) (getStations inventory (otime org))
                      maxDelta maxResidual p"
    have m: "map snd poi = filter ?C ?del"
      using h by (intro candidates_in_delivery_order) simp_all
    have "?xs = filter (\<lambda>x. ?C x \<and> nslc x = k) ?del"
      unfolding m by simp
    with s have s': "sort_key creationTime (filter (\<lambda>x. ?C x \<and> nslc x = k) ?del) = p # ps"
      by simp
    from sort_key_head_first [OF s']
    obtain before after where b: "?del = before @ p # after"
      and f: "\<forall>x\<in>set before. ?C x \<and> nslc x = k \<longrightarrow> creationTime p < creationTime x"
      by blast
    have c: "\<And>x. x \<in> snd ` set poi \<Longrightarrow> ?C x"
    proof -
      fix x assume "x \<in> snd ` set poi"
      then have "x \<in> set (map snd poi)" by simp
      then show "?C x" unfolding m by simp
    qed
    have "\<forall>x\<in>set before. x \<in> snd ` set poi \<and> nslc x = k \<longrightarrow> creationTime p < creationTime x"
      using f c by blast
    with b show "\<exists>before after. ?del = before @ p # after
        \<and> (\<forall>x\<in>set before. x \<in> snd ` set poi \<and> nslc x = k \<longrightarrow> creationTime p < creationTime x)"
      by blast
  qed
  from 1 2 3 4 5 show ?thesis by blast
qed

theorem representative_earliest_witness:
  "((''GE'', ''STA1'', [], ''BHZ''), ex_pickC # [ex_pickA])
      \<in> set (sort_groups (group_picks [(''a'', ex_pickA), (''c'', ex_pickC)]))
   \<and> mset [(''c'', ex_pickC), (''a'', ex_pickA)] = mset [(''a'', ex_pickA), (''c'', ex_pickC)]
   \<and> inj_on creationTime {p' \<in> snd ` set [(''a'', ex_pickA), (''c'', ex_pickC)].
         nslc p' = (''GE'', ''STA1'', [], ''BHZ'')}
   \<and> creationTime ex_pickC \<le> creationTime ex_pickA
   \<and> ((''GE'', ''STA1'', [], ''BHZ''), ex_pickC # [ex_pickA])
      \<in> set (sort_groups (group_picks [(''c'', ex_pickC), (''a'', ex_pickA)]))
   \<and> ((''GE'', ''STA1'', [], ''BHZ''), ex_pickA # [ex_pickB])
      \<in> set (sort_groups (group_picks [(''a'', ex_pickA), (''b'', ex_pickB)]))
   \<and> creationTime ex_pickA = creationTime ex_pickB
   \<and> \<not> (\<exists>ps. ((''GE'', ''STA1'', [], ''BHZ''), ex_pickB # ps)
      \<in> set (sort_groups (group_picks [(''a'', ex_pickA), (''b'', ex_pickB)])))
   \<and> candidates ex_lib ex_origin ex_inventory [''dlpicker''] 105 3 ex_query_ab
       = ([(''a'', ex_pickA), (''b'', ex_pickB)], None)
   \<and> distinct (map publicID (delivered ex_query_ab (otime ex_origin) (otime ex_origin + 1200)))
   \<and> (\<exists>before after.
         delivered ex_query_ab (otime ex_origin) (otime ex_origin + 1200) = before @ ex_pickA # after
         \<and> (\<forall>x\<in>set before. x \<in> snd ` set [(''a'', ex_pickA), (''b'', ex_pickB)]
                  \<and> nslc x = (''GE'', ''STA1'', [], ''BHZ'')
                \<longrightarrow> creationTime ex_pickA < creationTime x))"
proof -
  let ?k = "(''GE'', ''STA1'', [], ''BHZ'')"
  have h1: "(?k, ex_pickC # [ex_pickA])
      \<in> set (sort_groups (group_picks [(''a'', ex_pickA), (''c'', ex_pickC)]))"
    by (simp add: ex_groups_ac)
  have h2: "mset [(''c'', ex_pickC), (''a'', ex_pickA)] = mset [(''a'', ex_pickA), (''c'', ex_pickC)]"
    by simp
  have h3: "inj_on creationTime {p' \<in> snd ` set [(''a'', ex_pickA), (''c'', ex_pickC)]. nslc p' = ?k}"
    by (auto simp: inj_on_def ex_pickA_def ex_pickC_def)
  note t = representative_earliest [OF h1]
  have c2: "creationTime ex_pickC \<le> creationTime ex_pickA"
    using t by (simp add: nslc_def ex_pickA_def)
  have c3: "(?k, ex_pickC # [ex_pickA])
      \<in> set (sort_groups (group_picks [(''c'', ex_pickC), (''a'', ex_pickA)]))"
    using t h2 h3 by blast
  have h4: "(?k, ex_pickA # [ex_pickB])
      \<in> set (sort_groups (group_picks [(''a'', ex_pickA), (''b'', ex_pickB)]))"
    by (simp add: ex_groups_ab)
  have c4: "creationTime ex_pickA = creationTime ex_pickB"
    by (simp add: ex_pickA_def ex_pickB_def)
  have c5: "\<not> (\<exists>ps. (?k, ex_pickB # ps)
      \<in> set (sort_groups (group_picks [(''a'', ex_pickA), (''b'', ex_pickB)])))"
  proof
    assume "\<exists>ps. (?k, ex_pickB # ps)
      \<in> set (sort_groups (group_picks [(''a'', ex_pickA), (''b'', ex_pickB)]))"
    then obtain ps where "(?k, ex_pickB # ps)
      \<in> set (sort_groups (group_picks [(''a'', ex_pickA), (''b'', ex_pickB)]))" ..
    from representative_earliest [OF this]
    obtain before after where b: "[ex_pickA, ex_pickB] = before @ ex_pickB # after"
      and l: "\<forall>x\<in>set before. nslc x = ?k \<longrightarrow> creationTime ex_pickB < creationTime x"
      by auto
    have ab: "ex_pickA \<noteq> ex_pickB" by (simp add: ex_pickA_def ex_pickB_def)
    from b ab have "before = [ex_pickA]"
      by (cases before) (auto simp: Cons_eq_append_conv)
    with l have "creationTime ex_pickB < creationTime ex_pickA"
      by (simp add: nslc_def ex_pickA_def)
    with c4 show False by simp
  qed
  have h6: "candidates ex_lib ex_origin ex_inventory [''dlpicker''] 105 3 ex_query_ab
       = ([(''a'', ex_pickA), (''b'', ex_pickB)], None)"
    by (rule ex_candidates_ab)
  have h7: "distinct (map publicID (delivered ex_query_ab (otime ex_origin) (otime ex_origin + 1200)))"
    by (simp add: delivered_def ex_query_ab_def ex_pickA_def ex_pickB_def)
  have c6: "\<exists>before after.
         delivered ex_query_ab (otime ex_origin) (otime ex_origin + 1200) = before @ ex_pickA # after
         \<and> (\<forall>x\<in>set before. x \<in> snd ` set [(''a'', ex_pickA), (''b'', ex_pickB)] \<and> nslc x = ?k
                \<longrightarrow> creationTime ex_pickA < creationTime x)"
    using representative_earliest [OF h4] h6 h7 by blast
  show ?thesis using h1 h2 h3 c2 c3 h4 c4 c5 h6 h7 c6 by blast
qed

text \<open>
  C5 as stated fails: A and B are created at the same time; delivered as A, B the
  representative of their stream is A, delivered as B, A it is B.
\<close>

theorem representative_order_counterexample:
  "mset (getPicksInTimespan ex_query_ab 0 1200) = mset (getPicksInTimespan ex_query_ba 0 1200)
   \<and> creationTime ex_pickA = creationTime ex_pickB
   \<and> sort_groups (group_picks (fst (candidates ex_lib ex_origin ex_inventory [''dlpicker''] 105 3 ex_query_ab)))
       = [((''GE'', ''STA1'', [], ''BHZ''), [ex_pickA, ex_pickB])]
   \<and> sort_groups (group_picks (fst (candidates ex_lib ex_origin ex_inventory [''dlpicker''] 105 3 ex_query_ba)))
       = [((''GE'', ''STA1'', [], ''BHZ''), [ex_pickB, ex_pickA])]
   \<and> map pickID (arrivals (fst (loadPicksForOrigin ex_lib ex_isManual ex_origin ex_inventory
        [''dlpicker''] 105 3 ex_query_ab True))) = [''a'']
   \<and> map pickID (arrivals (fst (loadPicksForOrigin ex_lib ex_isManual ex_origin ex_inventory
        [''dlpicker''] 105 3 ex_query_ba True))) = [''b'']"
  by (simp add: ex_candidates_ab ex_candidates_ba ex_groups_ab ex_groups_ba ex_run_ab ex_run_ba)
     (simp add: ex_query_ab_def ex_query_ba_def ex_pickA_def ex_pickB_def new_arrival_def)

section \<open>C6: the two residual windows\<close>

text \<open>
  C6. Residual filtering is a funnel of two stages with strict bounds on both sides. A
  loaded pick that reaches the residual test of the first loop (its station is known, it
  is within \<open>maxDelta\<close> and has a predicted time) is among the candidates if and only
  if \<open>-4*maxResidual < dt < 4*maxResidual\<close>; every arrival the association loop
  appends belongs to a group representative with \<open>-2*maxResidual < dt < 2*maxResidual\<close>.
  A residual of exactly 4 (or 2) times \<open>maxResidual\<close> is outside.
\<close>

theorem residual_funnel:
  assumes cand: "candidates lib org inventory allowed maxDelta maxResidual q = (poi, None)"
    and mem: "(pid, p) \<in> set (loadPicksForTimespan q (otime org) (otime org + 1200) allowed)"
    and pred: "predict lib (hypocentre_of org) (getStations inventory (otime org)) maxDelta (nslc p) p
               = Predicted delta dt"
    and run: "loadPicksForOrigin lib isManual org inventory allowed maxDelta maxResidual q True
              = (org', out)"
  shows "((pid, p) \<in> set poi \<longleftrightarrow> - 4 * maxResidual < dt \<and> dt < 4 * maxResidual)
       \<and> (\<exists>new. arrivals org' = manual_arrivals q isManual org @ new
            \<and> (\<forall>a\<in>set new. \<exists>k r rs delta' dt'.
                  (k, r # rs) \<in> set (sort_groups (group_picks poi))
                  \<and> a = new_arrival r delta' maxDelta
                  \<and> predict lib (hypocentre_of org) (getStations inventory (otime org)) maxDelta k r
                      = Predicted delta' dt'
                  \<and> - 2 * maxResidual < dt' \<and> dt' < 2 * maxResidual))"
proof
  let ?h = "hypocentre_of org" and ?st = "getStations inventory (otime org)"
  note fe = candidates_for_each [OF cand]
  have p4: "passes4 lib ?h ?st maxDelta maxResidual p \<longleftrightarrow> - 4 * maxResidual < dt \<and> dt < 4 * maxResidual"
    using pred by (simp add: passes4_def)
  show "(pid, p) \<in> set poi \<longleftrightarrow> - 4 * maxResidual < dt \<and> dt < 4 * maxResidual"
  proof
    assume "(pid, p) \<in> set poi"
    from collect_sound [OF fe this] show "- 4 * maxResidual < dt \<and> dt < 4 * maxResidual"
      using p4 by simp
  next
    assume "- 4 * maxResidual < dt \<and> dt < 4 * maxResidual"
    then have "passes4 lib ?h ?st maxDelta maxResidual (snd (pid, p))" using p4 by simp
    then show "(pid, p) \<in> set poi"
      using collect_complete [OF fe distinct_loadPicksForTimespan] mem by blast
  qed
next
  from loadPicksForOrigin_True [OF cand run] obtain new where
    n: "arrivals org' = manual_arrivals q isManual org @ new"
       "\<forall>a\<in>set new. \<exists>spl.
            accepted lib (hypocentre_of org) (getStations inventory (otime org))
              maxDelta maxResidual spl (sort_groups (group_picks poi)) a
          \<and> (\<forall>ma\<in>set (manual_arrivals q isManual org). \<forall>mp.
                map_of (associated_picks_of q org) (pickID ma) = Some mp
                \<longrightarrow> (waveformID mp, phase ma) \<in> set spl)"
    by blast
  have "\<forall>a\<in>set new. \<exists>k r rs delta' dt'.
                  (k, r # rs) \<in> set (sort_groups (group_picks poi))
                  \<and> a = new_arrival r delta' maxDelta
                  \<and> predict lib (hypocentre_of org) (getStations inventory (otime org)) maxDelta k r
                      = Predicted delta' dt'
                  \<and> - 2 * maxResidual < dt' \<and> dt' < 2 * maxResidual"
  proof
    fix a assume "a \<in> set new"
    with n(2) obtain spl where "accepted lib (hypocentre_of org) (getStations inventory (otime org))
              maxDelta maxResidual spl (sort_groups (group_picks poi)) a" by blast
    then show "\<exists>k r rs delta' dt'.
                  (k, r # rs) \<in> set (sort_groups (group_picks poi))
                  \<and> a = new_arrival r delta' maxDelta
                  \<and> predict lib (hypocentre_of org) (getStations inventory (otime org)) maxDelta k r
                      = Predicted delta' dt'
                  \<and> - 2 * maxResidual < dt' \<and> dt' < 2 * maxResidual"
      unfolding accepted_def by blast
  qed
  with n(1) show "\<exists>new. arrivals org' = manual_arrivals q isManual org @ new
            \<and> (\<forall>a\<in>set new. \<exists>k r rs delta' dt'.
                  (k, r # rs) \<in> set (sort_groups (group_picks poi))
                  \<and> a = new_arrival r delta' maxDelta
                  \<and> predict lib (hypocentre_of org) (getStations inventory (otime org)) maxDelta k r
                      = Predicted delta' dt'
                  \<and> - 2 * maxResidual < dt' \<and> dt' < 2 * maxResidual)" by blast
qed

theorem residual_funnel_witness:
  "candidates ex_lib ex_origin ex_inventory [''dlpicker''] 105 3 ex_query = ([(''p1'', ex_pick1)], None)
   \<and> (''p1'', ex_pick1) \<in> set (loadPicksForTimespan ex_query (otime ex_origin) (otime ex_origin + 1200) [''dlpicker''])
   \<and> predict ex_lib (hypocentre_of ex_origin) (getStations ex_inventory (otime ex_origin)) 105
        (nslc ex_pick1) ex_pick1 = Predicted 20 1
   \<and> loadPicksForOrigin ex_lib ex_isManual ex_origin ex_inventory [''dlpicker''] 105 3 ex_query True
        = (ex_origin\<lparr>arrivals := [new_arrival ex_pick1 20 105]\<rparr>, Returns [ex_pick1])
   \<and> ((''p1'', ex_pick1) \<in> set [(''p1'', ex_pick1)] \<longleftrightarrow> - 4 * 3 < (1::real) \<and> (1::real) < 4 * 3)"
proof -
  have mem: "(''p1'', ex_pick1) \<in> set (loadPicksForTimespan ex_query (otime ex_origin) (otime ex_origin + 1200) [''dlpicker''])"
    by (simp add: ex_loaded)
  note t = residual_funnel [OF ex_candidates mem ex_predict ex_run, THEN conjunct1]
  show ?thesis
    by (intro conjI) (rule ex_candidates, rule mem, rule ex_predict, rule ex_run, rule t)
qed

section \<open>C7: attempted picks are never new again\<close>

text \<open>
  C7. Over any sequence of passes of \<open>processOrigin\<close>, for the workspace of any event:
  \<open>attempted_picks\<close> only grows; and a pick ID that is in \<open>attempted_picks\<close> at the start
  is in \<open>new_picks\<close> after a pass only if that pass left the workspace untouched (it
  returned before \<open>new_picks\<close> was cleared, or it was a pass for another event). A pass
  that reaches the workspace never has such an ID in \<open>new_picks\<close> when it ends, whatever
  the associated picks and the predicted picks are.
\<close>

theorem attempted_never_new_again:
  assumes "pid \<in> attempted_of wss eid"
  shows "attempted_of wss eid \<subseteq> attempted_of (run_passes g app ps wss) eid
       \<and> (\<forall>ps1 p ps2. ps = ps1 @ p # ps2
             \<and> pid \<in> new_of (run_passes g app (ps1 @ [p]) wss) eid
           \<longrightarrow> map_of (run_passes g app (ps1 @ [p]) wss) eid = map_of (run_passes g app ps1 wss) eid)
       \<and> (\<forall>w org ws0. map_of wss eid = Some ws0
           \<longrightarrow> pid \<notin> fst ` set (new_picks (fst (fst (processOrigin_workspace g app w org eid ws0)))))"
proof (intro conjI)
  show "attempted_of wss eid \<subseteq> attempted_of (run_passes g app ps wss) eid"
    by (rule run_passes_attempted)
  show "\<forall>ps1 p ps2. ps = ps1 @ p # ps2
             \<and> pid \<in> new_of (run_passes g app (ps1 @ [p]) wss) eid
           \<longrightarrow> map_of (run_passes g app (ps1 @ [p]) wss) eid = map_of (run_passes g app ps1 wss) eid"
  proof (intro allI impI)
    fix ps1 p ps2
    assume h: "ps = ps1 @ p # ps2 \<and> pid \<in> new_of (run_passes g app (ps1 @ [p]) wss) eid"
    have a: "pid \<in> attempted_of (run_passes g app ps1 wss) eid"
      using assms run_passes_attempted by blast
    have n: "pid \<in> new_of (run_pass g app p (run_passes g app ps1 wss)) eid"
      using h by (simp add: run_passes_snoc)
    show "map_of (run_passes g app (ps1 @ [p]) wss) eid = map_of (run_passes g app ps1 wss) eid"
      unfolding run_passes_snoc by (rule run_pass_new [OF a n])
  qed
  show "\<forall>w org ws0. map_of wss eid = Some ws0
           \<longrightarrow> pid \<notin> fst ` set (new_picks (fst (fst (processOrigin_workspace g app w org eid ws0))))"
  proof (intro allI impI)
    fix w org ws0 assume m: "map_of wss eid = Some ws0"
    then have "pid \<in> fst ` set (attempted_picks ws0)" using assms by (simp add: attempted_of_def)
    then show "pid \<notin> fst ` set (new_picks (fst (fst (processOrigin_workspace g app w org eid ws0))))"
      using processOrigin_workspace_inv [of ws0 g app w org eid] by (auto simp: pass_inv_def)
  qed
qed

lemma ex_pass_empty_skipped:
  "run_passes client_globals ex_app ([] @ [ex_pass_empty]) [(''ev1'', ex_ws_both)]
   = [(''ev1'', ex_ws_both)]"
  by (simp add: run_passes_def run_pass_def ex_pass_empty_def processOrigin_def ex_origin_def
      ex_app_def)

theorem attempted_never_new_again_witness:
  "''s1'' \<in> attempted_of [(''ev1'', ex_ws_attempted)] ''ev1''
   \<and> attempted_of [(''ev1'', ex_ws_attempted)] ''ev1''
       \<subseteq> attempted_of (run_passes client_globals ex_app [ex_pass, ex_pass] [(''ev1'', ex_ws_attempted)]) ''ev1''
   \<and> ''s1'' \<notin> new_of (run_passes client_globals ex_app [ex_pass, ex_pass] [(''ev1'', ex_ws_attempted)]) ''ev1''
   \<and> ''s1'' \<notin> fst ` set (new_picks (fst (fst (processOrigin_workspace client_globals ex_app ex_world
          ex_origin_regional ''ev1'' ex_ws_attempted))))
   \<and> ''s1'' \<in> attempted_of [(''ev1'', ex_ws_both)] ''ev1''
   \<and> ''s1'' \<in> new_of (run_passes client_globals ex_app ([] @ [ex_pass_empty]) [(''ev1'', ex_ws_both)]) ''ev1''
   \<and> map_of (run_passes client_globals ex_app ([] @ [ex_pass_empty]) [(''ev1'', ex_ws_both)]) ''ev1''
       = map_of (run_passes client_globals ex_app [] [(''ev1'', ex_ws_both)]) ''ev1''"
proof -
  have h: "''s1'' \<in> attempted_of [(''ev1'', ex_ws_attempted)] ''ev1''"
    by (simp add: attempted_of_def ex_ws_attempted_def)
  note t = attempted_never_new_again [OF h, of client_globals ex_app "[ex_pass, ex_pass]"]
  have m: "map_of [(''ev1'', ex_ws_attempted)] ''ev1'' = Some ex_ws_attempted" by simp
  have c3: "''s1'' \<notin> fst ` set (new_picks (fst (fst (processOrigin_workspace client_globals ex_app
      ex_world ex_origin_regional ''ev1'' ex_ws_attempted))))"
    using t m by blast
  have run1: "run_pass client_globals ex_app ex_pass [(''ev1'', ex_ws_attempted)]
      = [(''ev1'', ex_ws_attempted\<lparr>ws_origin := Some ex_origin_regional\<rparr>)]"
    by (simp add: run_pass_def ex_pass_def ex_pass_attempted)
  have run2: "run_passes client_globals ex_app [ex_pass, ex_pass] [(''ev1'', ex_ws_attempted)]
      = [(''ev1'', ex_ws_attempted\<lparr>ws_origin := Some ex_origin_regional\<rparr>)]"
    unfolding run_passes_def fold_simps o_apply run1
    by (simp add: run_pass_def ex_pass_def client_defs ex_defs ex_ws_attempted_def Let_def)
  have c2: "''s1'' \<notin> new_of (run_passes client_globals ex_app [ex_pass, ex_pass] [(''ev1'', ex_ws_attempted)]) ''ev1''"
    unfolding run2 by (simp add: new_of_def ex_ws_attempted_def ex_workspace_def)
  have h': "''s1'' \<in> attempted_of [(''ev1'', ex_ws_both)] ''ev1''"
    by (simp add: attempted_of_def ex_ws_both_def)
  have n': "''s1'' \<in> new_of (run_passes client_globals ex_app ([] @ [ex_pass_empty]) [(''ev1'', ex_ws_both)]) ''ev1''"
    unfolding ex_pass_empty_skipped by (simp add: new_of_def ex_ws_both_def)
  note t' = attempted_never_new_again [OF h', of client_globals ex_app "[ex_pass_empty]",
      THEN conjunct2, THEN conjunct1, THEN spec, THEN spec, THEN spec, of "[]" ex_pass_empty "[]"]
  have c4: "map_of (run_passes client_globals ex_app ([] @ [ex_pass_empty]) [(''ev1'', ex_ws_both)]) ''ev1''
       = map_of (run_passes client_globals ex_app [] [(''ev1'', ex_ws_both)]) ''ev1''"
    using t' n' by simp
  show ?thesis using h t c2 c3 h' n' c4 by blast
qed

section \<open>C8: an empty travel time list\<close>










section \<open>C9: the relocation script cannot relocate\<close>

lemma loadPicksForOrigin_call_unbound:
  "bind_call loadPicksForOrigin_sig (length loadPicksForOrigin_args) [] = Some TypeError"
  by (simp add: bind_call_def loadPicksForOrigin_sig_def loadPicksForOrigin_args_def)

lemma full_keyword_unexpected:
  "bind_call loadEvent_sig 2 [''full''] = Some TypeError"
  by (simp add: bind_call_def loadEvent_sig_def)

lemma processEvent_raises:
  "\<exists>e. snd (relocator_processEvent sigE sigO relocated c self eventID) = Some e"
  unfolding relocator_processEvent_def loadPicksForOrigin_call_unbound
  by (simp split: option.splits sum.splits)

lemma processEvent_calls:
  "set (fst (relocator_processEvent sigE sigO relocated c self eventID))
     \<subseteq> {''loadEvent'', ''loadOrigin''}"
  unfolding relocator_processEvent_def loadPicksForOrigin_call_unbound
  by (simp split: option.splits sum.splits)

text \<open>
  C9. For every event ID, every command line and every application object,
  \<open>processEvent\<close>, run after the assignments of \<open>run\<close>, raises before \<open>relocate\<close> is
  called, whatever the signatures of \<open>loadEvent\<close> and \<open>loadOrigin\<close> are (with those of
  dbutil.py the keyword \<open>full\<close> already raises TypeError). \<open>run\<close> assigns none of
  \<open>maxDelta\<close>, \<open>minimumDepth\<close> and \<open>maxResidual\<close>; the call of \<open>loadPicksForOrigin\<close>
  passes the query in the position of \<open>origin\<close> and five arguments where six parameters
  have no default, so that it cannot be bound.
\<close>

theorem relocator_processEvent_fails:
  "(\<exists>e. snd (relocator_processEvent sigE sigO relocated c (run_assignments c self) eventID) = Some e)
   \<and> ''relocate'' \<notin> set (fst (relocator_processEvent sigE sigO relocated c (run_assignments c self) eventID))
   \<and> relocator_processEvent loadEvent_sig loadOrigin_sig relocated c (run_assignments c self) eventID
       = ([], Some TypeError)
   \<and> run_assignments c self ''maxDelta'' = self ''maxDelta''
   \<and> run_assignments c self ''minimumDepth'' = self ''minimumDepth''
   \<and> run_assignments c self ''maxResidual'' = self ''maxResidual''
   \<and> hd (zip (params loadPicksForOrigin_sig) loadPicksForOrigin_args) = (''origin'', ''self.query()'')
   \<and> length loadPicksForOrigin_args = 5
   \<and> length (params loadPicksForOrigin_sig) - defaults loadPicksForOrigin_sig = 6
   \<and> bind_call loadPicksForOrigin_sig (length loadPicksForOrigin_args) [] = Some TypeError"
proof (intro conjI)
  show "\<exists>e. snd (relocator_processEvent sigE sigO relocated c (run_assignments c self) eventID) = Some e"
    by (rule processEvent_raises)
  show "''relocate'' \<notin> set (fst (relocator_processEvent sigE sigO relocated c (run_assignments c self) eventID))"
    using processEvent_calls [of sigE sigO relocated c "run_assignments c self" eventID] by auto
  show "relocator_processEvent loadEvent_sig loadOrigin_sig relocated c (run_assignments c self) eventID
       = ([], Some TypeError)"
    by (simp add: relocator_processEvent_def full_keyword_unexpected)
  show "run_assignments c self ''maxDelta'' = self ''maxDelta''"
    by (simp add: run_assignments_def)
  show "run_assignments c self ''minimumDepth'' = self ''minimumDepth''"
    by (simp add: run_assignments_def)
  show "run_assignments c self ''maxResidual'' = self ''maxResidual''"
    by (simp add: run_assignments_def)
  show "hd (zip (params loadPicksForOrigin_sig) loadPicksForOrigin_args) = (''origin'', ''self.query()'')"
    by (simp add: loadPicksForOrigin_sig_def loadPicksForOrigin_args_def)
  show "length loadPicksForOrigin_args = 5" by (simp add: loadPicksForOrigin_args_def)
  show "length (params loadPicksForOrigin_sig) - defaults loadPicksForOrigin_sig = 6"
    by (simp add: loadPicksForOrigin_sig_def)
  show "bind_call loadPicksForOrigin_sig (length loadPicksForOrigin_args) [] = Some TypeError"
    by (rule loadPicksForOrigin_call_unbound)
qed

text \<open>A whole run for one event, with the attributes set by hand: no call is made.\<close>

lemma ex_relocator_run:
  "snd (relocator_run loadEvent_sig loadOrigin_sig True ex_cmdline ex_self) = Some TypeError
   \<and> snd (fst (relocator_run loadEvent_sig loadOrigin_sig True ex_cmdline ex_self)) = []"
  by (simp add: relocator_run_def ex_cmdline_def py_split_def whitespace_def
      relocator_processEvent_def full_keyword_unexpected Let_def)

section \<open>C10: without keepManualPicks the association loop raises NameError\<close>

lemma associate_unbound:
  assumes "ps \<noteq> []"
  shows "for_each (associate_body lib h station maxDelta maxResidual None) ((k, ps) # gs) st
         = (st, Some NameError)"
  using assms by (cases ps) (simp_all add: associate_body_def)

text \<open>
  C10. When \<open>loadPicksForOrigin\<close> is called with \<open>keepManualPicks\<close> false and at least
  one channel group survives the pre-filter, the association loop reads the unbound
  local \<open>stream_phase_list\<close> at the first group: the call raises NameError, and the
  origin is left with no arrivals.
\<close>

theorem keepManualPicks_False_raises:
  assumes "candidates lib org inventory allowedAuthorIDs maxDelta maxResidual q = (picks_of_interest, None)"
    and "sort_groups (group_picks picks_of_interest) \<noteq> []"
  shows "loadPicksForOrigin lib isManual org inventory allowedAuthorIDs maxDelta maxResidual q False
         = (org\<lparr>arrivals := []\<rparr>, Raises NameError)"
proof -
  obtain k ps gs where g: "sort_groups (group_picks picks_of_interest) = (k, ps) # gs"
    using assms(2) by (cases "sort_groups (group_picks picks_of_interest)") auto
  then have "ps \<noteq> []"
    using sort_groups_nonempty [of k ps picks_of_interest] by simp
  then have "for_each (associate_body lib (hypocentre_of org)
                 (getStations inventory (etime (hypocentre_of org))) maxDelta maxResidual None)
               (sort_groups (group_picks picks_of_interest))
               (clearAllArrivals (loadArrivals q (clearAllArrivals org)), [])
             = ((clearAllArrivals (loadArrivals q (clearAllArrivals org)), []), Some NameError)"
    unfolding g by (rule associate_unbound)
  then show ?thesis
    using assms(1)
    by (simp add: loadPicksForOrigin_def Let_def clearAllArrivals_def loadArrivals_def)
qed

theorem keepManualPicks_False_raises_witness:
  "candidates ex_lib ex_origin ex_inventory [''dlpicker''] 105 3 ex_query = ([(''p1'', ex_pick1)], None)
   \<and> sort_groups (group_picks [(''p1'', ex_pick1)]) \<noteq> []
   \<and> loadPicksForOrigin ex_lib (\<lambda>a. True) ex_origin ex_inventory [''dlpicker''] 105 3 ex_query False
       = (ex_origin\<lparr>arrivals := []\<rparr>, Raises NameError)"
proof -
  have h2: "sort_groups (group_picks [(''p1'', ex_pick1)]) \<noteq> []"
    by (simp add: ex_groups)
  show ?thesis
    using keepManualPicks_False_raises [OF ex_candidates h2] ex_candidates h2 by simp
qed

end
